theory Spec2Isabelle
  imports Complex_Main
begin

section \<open>Python values and dictionaries\<close>

text \<open>
  The values that travel between the script and the document store.  A Python float is
  an exact rational, an infinity or NaN; NaN is kept because the script compares
  documents with \<^verbatim>\<open>!=\<close>, and NaN differs from itself.  \<open>SERVER_TIMESTAMP\<close> and
  \<open>ArrayUnion\<close> are the two write sentinels of the store's client library; a
  committed document holds \<open>PTimestamp\<close> and \<open>PList\<close> in their place.
\<close>

datatype pyfloat = Finite rat | PosInf | NegInf | NaN

type_synonym path = "string list"

datatype pyval =
    PNone
  | PStr string
  | PInt int
  | PFloat pyfloat
  | PList "pyval list"
  | PRef path
  | PTimestamp nat
  | SERVER_TIMESTAMP
  | ArrayUnion "pyval list"

text \<open>
  A \<^verbatim>\<open>dict\<close> is an association list.  A CSV row is a dict of strings, as the reader
  yields it for a line with one cell per column of the header: a column of the file is a
  key of every row, and a column the file lacks is a key of none.
\<close>

type_synonym 'v dict = "(string \<times> 'v) list"
type_synonym row = "string dict"
type_synonym doc = "pyval dict"

datatype error = KeyError string | ValueError string | Commit_failed

text \<open>\<^verbatim>\<open>d[k]\<close>: raises \<open>KeyError\<close> when the key is absent.\<close>

definition getitem :: "'v dict \<Rightarrow> string \<Rightarrow> error + 'v" where
  "getitem d k = (case map_of d k of None \<Rightarrow> Inl (KeyError k) | Some v \<Rightarrow> Inr v)"

text \<open>Sequencing of steps that may raise: the first exception wins.\<close>

definition ebind :: "error + 'a \<Rightarrow> ('a \<Rightarrow> error + 'b) \<Rightarrow> error + 'b" where
  "ebind m f = (case m of Inl e \<Rightarrow> Inl e | Inr x \<Rightarrow> f x)"

text \<open>\<^verbatim>\<open>d[k] = v\<close>: replaces the value in place, or appends the new key.\<close>

fun setitem :: "string \<Rightarrow> 'v \<Rightarrow> 'v dict \<Rightarrow> 'v dict" where
  "setitem k v [] = [(k, v)]"
| "setitem k v ((k', v') # ps) =
     (if k' = k then (k, v) # ps else (k', v') # setitem k v ps)"

text \<open>\<^verbatim>\<open>d.update(e)\<close>.\<close>

fun dict_update :: "'v dict \<Rightarrow> 'v dict \<Rightarrow> 'v dict" where
  "dict_update d [] = d"
| "dict_update d ((k, v) # e) = dict_update (setitem k v d) e"

text \<open>\<^verbatim>\<open>d.get(k)\<close> on a document: \<open>None\<close> when the key is absent.\<close>

definition doc_get :: "doc \<Rightarrow> string \<Rightarrow> pyval" where
  "doc_get d k = (case map_of d k of None \<Rightarrow> PNone | Some v \<Rightarrow> v)"

text \<open>\<^verbatim>\<open>game.get(k)\<close> on a row, as the value stored in a document.\<close>

definition row_get :: "row \<Rightarrow> string \<Rightarrow> pyval" where
  "row_get r k = (case map_of r k of None \<Rightarrow> PNone | Some s \<Rightarrow> PStr s)"

subsection \<open>Equality of Python values\<close>

text \<open>Floats are equal when they are the same number; NaN equals nothing.\<close>

definition float_eq :: "pyfloat \<Rightarrow> pyfloat \<Rightarrow> bool" where
  "float_eq f g = (f \<noteq> NaN \<and> f = g)"

text \<open>
  \<^verbatim>\<open>a == b\<close>.  Integers and floats compare by value, lists element by element, the
  rest by type and content.
\<close>

fun py_eq :: "pyval \<Rightarrow> pyval \<Rightarrow> bool"
  and py_eq_list :: "pyval list \<Rightarrow> pyval list \<Rightarrow> bool" where
  "py_eq PNone b = (b = PNone)"
| "py_eq (PStr s) b = (b = PStr s)"
| "py_eq (PInt i) b =
     (case b of PInt j \<Rightarrow> i = j | PFloat g \<Rightarrow> float_eq (Finite (of_int i)) g | _ \<Rightarrow> False)"
| "py_eq (PFloat f) b =
     (case b of PInt j \<Rightarrow> float_eq f (Finite (of_int j)) | PFloat g \<Rightarrow> float_eq f g
      | _ \<Rightarrow> False)"
| "py_eq (PList xs) b = (case b of PList ys \<Rightarrow> py_eq_list xs ys | _ \<Rightarrow> False)"
| "py_eq (PRef p) b = (b = PRef p)"
| "py_eq (PTimestamp t) b = (b = PTimestamp t)"
| "py_eq SERVER_TIMESTAMP b = (b = SERVER_TIMESTAMP)"
| "py_eq (ArrayUnion xs) b = (case b of ArrayUnion ys \<Rightarrow> py_eq_list xs ys | _ \<Rightarrow> False)"
| "py_eq_list [] ys = (ys = [])"
| "py_eq_list (x # xs) ys =
     (case ys of [] \<Rightarrow> False | y # ys' \<Rightarrow> py_eq x y \<and> py_eq_list xs ys')"

definition py_ne :: "pyval \<Rightarrow> pyval \<Rightarrow> bool" where
  "py_ne a b = (\<not> py_eq a b)"

subsection \<open>String helpers\<close>

text \<open>
  A string is a list of characters with the codes 0 to 255, read as code points; text
  with a code point above 255 is outside the model.  On these, \<^verbatim>\<open>str.strip\<close> removes
  the codes 9 to 13, 28 to 32, 133 and 160, and \<^verbatim>\<open>str.isdigit\<close> holds for \<open>0\<close> to
  \<open>9\<close> and for the superscript digits 178, 179 and 185.
\<close>

definition is_space :: "char \<Rightarrow> bool" where
  "is_space c =
     (let n = (of_char c :: nat)
      in (9 \<le> n \<and> n \<le> 13) \<or> (28 \<le> n \<and> n \<le> 32) \<or> n = 133 \<or> n = 160)"

definition strip :: "string \<Rightarrow> string" where
  "strip s = rev (dropWhile is_space (rev (dropWhile is_space s)))"

text \<open>\<^verbatim>\<open>s.split(',')\<close>: always at least one piece.\<close>

fun split_comma :: "string \<Rightarrow> string list" where
  "split_comma [] = [[]]"
| "split_comma (c # cs) =
     (if c = CHR '','' then [] # split_comma cs
      else (case split_comma cs of [] \<Rightarrow> [[c]] | w # ws \<Rightarrow> (c # w) # ws))"

definition is_decimal :: "char \<Rightarrow> bool" where
  "is_decimal c = (let n = (of_char c :: nat) in 48 \<le> n \<and> n \<le> 57)"

definition is_digit :: "char \<Rightarrow> bool" where
  "is_digit c = (let n = (of_char c :: nat) in (48 \<le> n \<and> n \<le> 57) \<or> n = 178 \<or> n = 179 \<or> n = 185)"

definition isdigit :: "string \<Rightarrow> bool" where
  "isdigit s = (s \<noteq> [] \<and> list_all is_digit s)"

text \<open>The value of a string of the digits \<open>0\<close> to \<open>9\<close>.\<close>

definition int_of_digits :: "string \<Rightarrow> int" where
  "int_of_digits s = foldl (\<lambda>acc c. 10 * acc + (int (of_char c) - 48)) 0 s"

text \<open>
  \<^verbatim>\<open>int(s)\<close> on a string for which \<^verbatim>\<open>s.isdigit()\<close> holds: \<open>ValueError\<close> when a
  superscript digit occurs.
\<close>

definition int_of_isdigit :: "string \<Rightarrow> error + int" where
  "int_of_isdigit s =
     (if list_all is_decimal s then Inr (int_of_digits s) else Inl (ValueError s))"

section \<open>The document store and its batch\<close>

text \<open>
  The store maps the path of a document to its fields.  A batch is the list of its
  writes in the order they were added.  \<open>set\<close> replaces the document, \<open>update\<close>
  merges fields into a document that must exist.  On commit the writes are applied
  in order and the batch fails as a whole when an \<open>update\<close> finds no document.
\<close>

type_synonym store = "path \<Rightarrow> doc option"

datatype write_op = Batch_set path doc | Batch_update path doc

fun target :: "write_op \<Rightarrow> path" where
  "target (Batch_set p d) = p"
| "target (Batch_update p d) = p"

fun payload :: "write_op \<Rightarrow> doc" where
  "payload (Batch_set p d) = d"
| "payload (Batch_update p d) = d"

text \<open>
  \<open>ArrayUnion\<close>: the elements not yet in the array are appended, in order; a field
  that is not an array counts as the empty array.
\<close>

fun array_union :: "pyval list \<Rightarrow> pyval list \<Rightarrow> pyval list" where
  "array_union old [] = old"
| "array_union old (x # xs) = array_union (if x \<in> set old then old else old @ [x]) xs"

definition array_field :: "doc \<Rightarrow> string \<Rightarrow> pyval list" where
  "array_field d k = (case map_of d k of Some (PList ys) \<Rightarrow> ys | _ \<Rightarrow> [])"

text \<open>The value a written field takes, given the document before the write.\<close>

definition resolve :: "nat \<Rightarrow> doc \<Rightarrow> string \<Rightarrow> pyval \<Rightarrow> pyval" where
  "resolve now old k v =
     (case v of
        SERVER_TIMESTAMP \<Rightarrow> PTimestamp now
      | ArrayUnion xs \<Rightarrow> PList (array_union (array_field old k) xs)
      | _ \<Rightarrow> v)"

fun merge_fields :: "nat \<Rightarrow> doc \<Rightarrow> doc \<Rightarrow> doc \<Rightarrow> doc" where
  "merge_fields now old acc [] = acc"
| "merge_fields now old acc ((k, v) # e) =
     merge_fields now old (setitem k (resolve now old k v) acc) e"

text \<open>The effect of one write on the document it targets.\<close>

fun write_doc :: "nat \<Rightarrow> doc option \<Rightarrow> write_op \<Rightarrow> doc option" where
  "write_doc now old (Batch_set p d) = Some (merge_fields now [] [] d)"
| "write_doc now None (Batch_update p d) = None"
| "write_doc now (Some old) (Batch_update p d) = Some (merge_fields now old old d)"

definition apply_write :: "nat \<Rightarrow> store \<Rightarrow> write_op \<Rightarrow> store option" where
  "apply_write now s w =
     (case write_doc now (s (target w)) w of
        None \<Rightarrow> None
      | Some d \<Rightarrow> Some (s(target w \<mapsto> d)))"

fun commit :: "nat \<Rightarrow> store \<Rightarrow> write_op list \<Rightarrow> store option" where
  "commit now s [] = Some s"
| "commit now s (w # ws) =
     (case apply_write now s w of None \<Rightarrow> None | Some s' \<Rightarrow> commit now s' ws)"

definition game_mode_ref :: "string \<Rightarrow> path" where
  "game_mode_ref game_mode_id = [''gameModes'', game_mode_id]"

definition level_ref :: "string \<Rightarrow> string \<Rightarrow> path" where
  "level_ref game_mode_id level_id = [''gameModes'', game_mode_id, ''levels'', level_id]"

definition game_ref :: "string \<Rightarrow> path" where
  "game_ref game_id = [''games'', game_id]"

text \<open>\<^verbatim>\<open>fetch_existing_games\<close>: the documents of the collection \<open>games\<close>, by id.\<close>

definition fetch_existing_games :: "store \<Rightarrow> string \<Rightarrow> doc option" where
  "fetch_existing_games db = (\<lambda>game_id. db (game_ref game_id))"

section \<open>The diff check and the game document\<close>

definition keys_to_check :: "string list" where
  "keys_to_check =
     [''description'', ''instructions'', ''timeLimit'', ''gameModeId'', ''levelId'',
      ''letterPosition'', ''targetLetter'', ''answerBank'']"

text \<open>The loop of \<^verbatim>\<open>has_game_changed\<close>, returning at the first key that differs.\<close>

fun changed_on :: "string list \<Rightarrow> doc \<Rightarrow> doc \<Rightarrow> bool" where
  "changed_on [] existing_game new_game_data = False"
| "changed_on (key # keys) existing_game new_game_data =
     (if py_ne (doc_get existing_game key) (doc_get new_game_data key) then True
      else changed_on keys existing_game new_game_data)"

definition has_game_changed :: "doc \<Rightarrow> doc \<Rightarrow> bool" where
  "has_game_changed existing_game new_game_data =
     changed_on keys_to_check existing_game new_game_data"

text \<open>
  \<^verbatim>\<open>float\<close> is the language's own parser and is a parameter \<open>pyfloat\<close> of the model:
  \<open>None\<close> is its \<open>ValueError\<close>.
\<close>

definition time_limit_of :: "(string \<Rightarrow> pyfloat option) \<Rightarrow> string \<Rightarrow> error + pyval" where
  "time_limit_of pyfloat s =
     (if s \<noteq> [] then
        (case pyfloat s of None \<Rightarrow> Inl (ValueError s) | Some f \<Rightarrow> Inr (PFloat f))
      else Inr PNone)"

definition answer_bank_of :: "string \<Rightarrow> pyval" where
  "answer_bank_of s =
     (if s \<noteq> [] then PList (map (\<lambda>ans. PStr (strip ans)) (split_comma s)) else PNone)"

text \<open>
  \<^verbatim>\<open>build_game_data\<close>.  The entries are evaluated in the order of the dict display,
  so the first failing one decides the exception.
\<close>

definition build_game_data ::
  "(string \<Rightarrow> pyfloat option) \<Rightarrow> row \<Rightarrow> string \<Rightarrow> string \<Rightarrow> error + doc" where
  "build_game_data pyfloat game game_mode_id level_id =
     ebind (getitem game ''name'') (\<lambda>name.
     ebind (getitem game ''instructions'') (\<lambda>instructions.
     ebind (getitem game ''timeLimit'') (\<lambda>limit.
     ebind (time_limit_of pyfloat limit) (\<lambda>time_limit.
     ebind (getitem game ''answerBank'') (\<lambda>answer_bank.
       Inr [(''name'', PStr name),
            (''description'', row_get game ''description''),
            (''instructions'', PStr instructions),
            (''timeLimit'', time_limit),
            (''gameModeId'', PStr game_mode_id),
            (''levelId'', PStr level_id),
            (''letterPosition'', row_get game ''letterPosition''),
            (''targetLetter'', row_get game ''targetLetter''),
            (''answerBank'', answer_bank_of answer_bank)])))))"

section \<open>The reconciler\<close>

text \<open>What the script prints.\<close>

datatype event =
    Empty_games
  | Empty_structure
  | Creating_gameMode string
  | Creating_level string string
  | New_game string
  | Game_updated string
  | No_changes string
  | Not_found_skipping string
  | Missing_field string row
  | All_committed

subsection \<open>Structure pass\<close>

text \<open>
  \<^verbatim>\<open>int(s) if s.isdigit() else None\<close>, for the suggested time limit of a level.
\<close>

definition sug_time_limit :: "string \<Rightarrow> error + pyval" where
  "sug_time_limit s =
     (if isdigit s then
        (case int_of_isdigit s of Inl e \<Rightarrow> Inl e | Inr i \<Rightarrow> Inr (PInt i))
      else Inr PNone)"

text \<open>
  One iteration of the loop over \<^verbatim>\<open>structure_csv\<close>.  Nothing catches an exception
  here.  The store is read as it was before the run: the batch is only applied at the
  commit.
\<close>

definition structure_step :: "store \<Rightarrow> row \<Rightarrow> error + (write_op list \<times> event list)" where
  "structure_step db structure =
     ebind (getitem structure ''id'') (\<lambda>game_mode_id.
     ebind (getitem structure ''levelId'') (\<lambda>level_id.
     ebind (getitem structure ''name'') (\<lambda>name.
     ebind (getitem structure ''description'') (\<lambda>description.
     (let game_mode_data = [(''name'', PStr name), (''description'', PStr description)];
          mode_writes =
            (if db (game_mode_ref game_mode_id) \<noteq> None
             then ([Batch_update (game_mode_ref game_mode_id) game_mode_data], [])
             else ([Batch_set (game_mode_ref game_mode_id) game_mode_data],
                   [Creating_gameMode game_mode_id]))
      in
     ebind (getitem structure ''levelName'') (\<lambda>level_name.
     ebind (getitem structure ''levelDescription'') (\<lambda>level_description.
     ebind (getitem structure ''levelSuggestedTimeLimit'') (\<lambda>sug.
     ebind (sug_time_limit sug) (\<lambda>sug_limit.
     (let level_data = [(''name'', PStr level_name),
                        (''description'', PStr level_description),
                        (''sugTimeLimit'', sug_limit)]
      in
      if db (level_ref game_mode_id level_id) \<noteq> None
      then Inr (fst mode_writes @ [Batch_update (level_ref game_mode_id level_id) level_data],
                snd mode_writes)
      else
        (let existing_level =
               (case db (level_ref game_mode_id level_id) of None \<Rightarrow> [] | Some d \<Rightarrow> d);
             game_refs =
               (case map_of existing_level ''gameRefs'' of None \<Rightarrow> PList [] | Some v \<Rightarrow> v)
         in Inr (fst mode_writes @
                   [Batch_set (level_ref game_mode_id level_id)
                      (setitem ''gameRefs'' game_refs level_data)],
                 snd mode_writes @ [Creating_level level_id game_mode_id]))))))))))))"

fun structure_loop :: "store \<Rightarrow> row list \<Rightarrow> error + (write_op list \<times> event list)" where
  "structure_loop db [] = Inr ([], [])"
| "structure_loop db (structure # rest) =
     (case structure_step db structure of
        Inl e \<Rightarrow> Inl e
      | Inr (w, p) \<Rightarrow>
          (case structure_loop db rest of
             Inl e \<Rightarrow> Inl e
           | Inr (ws, ps) \<Rightarrow> Inr (w @ ws, p @ ps)))"

subsection \<open>Game pass\<close>

text \<open>\<^verbatim>\<open>not game_id\<close>: the id is missing or the empty string.\<close>

definition no_id :: "string option \<Rightarrow> bool" where
  "no_id game_id = (game_id = None \<or> game_id = Some [])"

text \<open>\<^verbatim>\<open>if existing_game\<close>: a document was found and it has at least one field.\<close>

definition truthy :: "doc option \<Rightarrow> bool" where
  "truthy existing_game = (existing_game \<noteq> None \<and> existing_game \<noteq> Some [])"

text \<open>
  The body of the \<^verbatim>\<open>try\<close> for one game row.  \<open>new_id n\<close> is the id of the
  \<open>n\<close>-th document reference the client generates; the counter advances at
  \<^verbatim>\<open>db.collection('games').document()\<close>, before the row's data is built.  The
  result is the counter and either the exception or the writes added to the batch, the
  lines printed and the row as it is appended to \<^verbatim>\<open>updated_games_csv\<close>.
\<close>

definition game_step ::
  "(string \<Rightarrow> pyfloat option) \<Rightarrow> (nat \<Rightarrow> string) \<Rightarrow> (string \<Rightarrow> doc option) \<Rightarrow> nat \<Rightarrow> row
     \<Rightarrow> nat \<times> (error + (write_op list \<times> event list \<times> row))" where
  "game_step pyfloat new_id existing_games n game =
     (let game_id = map_of game ''id'' in
      (case getitem game ''levelId'' of
         Inl e \<Rightarrow> (n, Inl e)
       | Inr level_id \<Rightarrow>
      (case getitem game ''gameModeId'' of
         Inl e \<Rightarrow> (n, Inl e)
       | Inr game_mode_id \<Rightarrow>
      (if no_id game_id then
        (let new_doc_ref = game_ref (new_id n) in
         (case build_game_data pyfloat game game_mode_id level_id of
            Inl e \<Rightarrow> (Suc n, Inl e)
          | Inr game_data \<Rightarrow>
              (Suc n,
               Inr ([Batch_set new_doc_ref
                       (dict_update game_data
                          [(''createdAt'', SERVER_TIMESTAMP),
                           (''updatedAt'', SERVER_TIMESTAMP)]),
                     Batch_update (level_ref game_mode_id level_id)
                       [(''gameRefs'', ArrayUnion [PRef new_doc_ref])]],
                    [New_game (new_id n)],
                    setitem ''id'' (new_id n) game))))
       else
        (let existing_game = existing_games (the game_id) in
         (if truthy existing_game then
            (case build_game_data pyfloat game game_mode_id level_id of
               Inl e \<Rightarrow> (n, Inl e)
             | Inr game_data \<Rightarrow>
                 (if has_game_changed (the existing_game) game_data then
                    (n, Inr ([Batch_update (game_ref (the game_id))
                                (dict_update game_data [(''updatedAt'', SERVER_TIMESTAMP)])],
                             [Game_updated (the game_id)], game))
                  else (n, Inr ([], [No_changes (the game_id)], game))))
          else (n, Inr ([], [Not_found_skipping (the game_id)], game))))))))"

text \<open>
  The loop over \<^verbatim>\<open>games_csv\<close>.  A \<open>KeyError\<close> is caught: the row is reported and
  left out of \<^verbatim>\<open>updated_games_csv\<close>.  Any other exception ends the run.  The third
  component is \<^verbatim>\<open>games_csv\<close> itself after the loop, whose rows are the objects the
  loop assigns the new ids to.
\<close>

fun games_loop ::
  "(string \<Rightarrow> pyfloat option) \<Rightarrow> (nat \<Rightarrow> string) \<Rightarrow> (string \<Rightarrow> doc option) \<Rightarrow> nat \<Rightarrow> row list
     \<Rightarrow> error + (write_op list \<times> event list \<times> row list \<times> row list)" where
  "games_loop pyfloat new_id existing_games n [] = Inr ([], [], [], [])"
| "games_loop pyfloat new_id existing_games n (game # rest) =
     (case game_step pyfloat new_id existing_games n game of
        (n', Inl (KeyError k)) \<Rightarrow>
          (case games_loop pyfloat new_id existing_games n' rest of
             Inl e \<Rightarrow> Inl e
           | Inr (ws, ps, csv, updated) \<Rightarrow>
               Inr (ws, Missing_field k game # ps, game # csv, updated))
      | (n', Inl e) \<Rightarrow> Inl e
      | (n', Inr (w, p, game')) \<Rightarrow>
          (case games_loop pyfloat new_id existing_games n' rest of
             Inl e \<Rightarrow> Inl e
           | Inr (ws, ps, csv, updated) \<Rightarrow>
               Inr (w @ ws, p @ ps, game' # csv, game' # updated)))"

subsection \<open>Writing the games file\<close>

text \<open>
  \<^verbatim>\<open>write_csv\<close>: the header and one line of cells per row.  The writer raises
  \<open>ValueError\<close> on a row with a key outside \<open>fieldnames\<close> and writes the empty
  string for a missing one.
\<close>

definition write_csv :: "row list \<Rightarrow> string list \<Rightarrow> error + (string list \<times> string list list)" where
  "write_csv data fieldnames =
     (if list_ex (\<lambda>r. list_ex (\<lambda>k. k \<notin> set fieldnames) (map fst r)) data
      then Inl (ValueError ''dict contains fields not in fieldnames'')
      else Inr (fieldnames,
                map (\<lambda>r. map (\<lambda>k. case map_of r k of None \<Rightarrow> [] | Some v \<Rightarrow> v) fieldnames) data))"

text \<open>
  The file when the writer has raised: it was opened for writing, and the header and
  the lines of the rows before the offending one are in it.
\<close>

definition partly_written :: "row list \<Rightarrow> string list \<Rightarrow> string list \<times> string list list" where
  "partly_written data fieldnames =
     (fieldnames,
      map (\<lambda>r. map (\<lambda>k. case map_of r k of None \<Rightarrow> [] | Some v \<Rightarrow> v) fieldnames)
        (takeWhile (\<lambda>r. \<not> list_ex (\<lambda>k. k \<notin> set fieldnames) (map fst r)) data))"

subsection \<open>The whole run\<close>

text \<open>
  What a run that did not raise before its commit leaves: the lines printed, the batch
  committed, the store, the games file if it was rewritten, and the exception of the
  writer if it raised.
\<close>

record run =
  printed :: "event list"
  batch :: "write_op list"
  db_after :: store
  games_file :: "(string list \<times> string list list) option"
  raised :: "error option"

text \<open>
  The two loops of \<^verbatim>\<open>upload_games_from_csv\<close> that fill the batch, on the rows read
  from the two files and the store as it is when the run starts: the batch, the lines
  printed, \<^verbatim>\<open>games_csv\<close> after the loops and \<^verbatim>\<open>updated_games_csv\<close>.
\<close>

definition reconcile ::
  "(string \<Rightarrow> pyfloat option) \<Rightarrow> (nat \<Rightarrow> string) \<Rightarrow> store \<Rightarrow> row list \<Rightarrow> row list
     \<Rightarrow> error + (write_op list \<times> event list \<times> row list \<times> row list)" where
  "reconcile pyfloat new_id db games_csv structure_csv =
     ebind (structure_loop db structure_csv) (\<lambda>(ws1, ps1).
     ebind (games_loop pyfloat new_id (fetch_existing_games db) 0 games_csv)
       (\<lambda>(ws2, ps2, csv, updated_games_csv).
          Inr (ws1 @ ws2, ps1 @ ps2, csv, updated_games_csv)))"

text \<open>
  \<^verbatim>\<open>upload_games_from_csv\<close>: the checks for empty input, the loops, the commit at the
  time \<open>now\<close> of the server, and the rewriting of the games file.  The result is
  \<open>Inl\<close> for an exception raised up to the commit, which leaves store and file as they
  were.  An exception of the writer comes after the commit and is the field \<open>raised\<close>.
\<close>

definition upload_games_from_csv ::
  "(string \<Rightarrow> pyfloat option) \<Rightarrow> (nat \<Rightarrow> string) \<Rightarrow> nat \<Rightarrow> store \<Rightarrow> row list \<Rightarrow> row list
     \<Rightarrow> error + run" where
  "upload_games_from_csv pyfloat new_id now db games_csv structure_csv =
     (if games_csv = [] then
        Inr \<lparr>printed = [Empty_games], batch = [], db_after = db, games_file = None,
             raised = None\<rparr>
      else if structure_csv = [] then
        Inr \<lparr>printed = [Empty_structure], batch = [], db_after = db, games_file = None,
             raised = None\<rparr>
      else
        ebind (reconcile pyfloat new_id db games_csv structure_csv)
          (\<lambda>(ws, ps, csv, updated_games_csv).
        (case commit now db ws of
           None \<Rightarrow> Inl Commit_failed
         | Some db' \<Rightarrow>
             (case write_csv updated_games_csv (map fst (hd csv)) of
                Inl e \<Rightarrow>
                  Inr \<lparr>printed = ps @ [All_committed], batch = ws, db_after = db',
                       games_file = Some (partly_written updated_games_csv (map fst (hd csv))),
                       raised = Some e\<rparr>
              | Inr file \<Rightarrow>
                  Inr \<lparr>printed = ps @ [All_committed], batch = ws, db_after = db',
                       games_file = Some file, raised = None\<rparr>))))"

text \<open>
  \<^verbatim>\<open>read_csv\<close>.  The file is the table of its cells: the header and the lines after
  it.  The reader skips a line without cells and makes of every other line the dict of
  the header names and the cells, a later column of the same name replacing the earlier
  one.  A row is a dict of strings, so the result is \<open>None\<close> for a file with a line that
  has fewer or more cells than the header: the reader gives such a row the value
  \<^verbatim>\<open>None\<close> or a list, which a row of the model cannot hold.
\<close>

definition row_of :: "string list \<Rightarrow> string list \<Rightarrow> row" where
  "row_of fieldnames cells = foldl (\<lambda>d (k, v). setitem k v d) [] (zip fieldnames cells)"

definition read_csv :: "string list \<times> string list list \<Rightarrow> row list option" where
  "read_csv file =
     (let lines = filter (\<lambda>cells. cells \<noteq> []) (snd file) in
      if list_all (\<lambda>cells. length cells = length (fst file)) lines
      then Some (map (row_of (fst file)) lines)
      else None)"

text \<open>The store after a run: as it was when the run raised before its commit.\<close>

definition db_of :: "store \<Rightarrow> error + run \<Rightarrow> store" where
  "db_of db res = (case res of Inl e \<Rightarrow> db | Inr r \<Rightarrow> db_after r)"

text \<open>The non-empty ids the rows of the games file carry.\<close>

definition row_ids :: "row list \<Rightarrow> string list" where
  "row_ids rows =
     concat (map (\<lambda>r. case map_of r ''id'' of None \<Rightarrow> [] | Some i \<Rightarrow> if i = [] then [] else [i])
               rows)"

text \<open>
  The games file a run wrote and the batch it committed: none when the run raised before
  its commit.
\<close>

definition file_of :: "error + run \<Rightarrow> (string list \<times> string list list) option" where
  "file_of res = (case res of Inl e \<Rightarrow> None | Inr r \<Rightarrow> games_file r)"

definition batch_of :: "error + run \<Rightarrow> write_op list" where
  "batch_of res = (case res of Inl e \<Rightarrow> [] | Inr r \<Rightarrow> batch r)"

text \<open>The writes of a batch to documents of the collection \<open>games\<close>.\<close>

definition game_writes :: "write_op list \<Rightarrow> write_op list" where
  "game_writes ws = filter (\<lambda>w. case target w of [c, g] \<Rightarrow> c = ''games'' | _ \<Rightarrow> False) ws"

text \<open>A field of a document of the store after a run that reached its commit.\<close>

definition stored_field :: "error + run \<Rightarrow> path \<Rightarrow> string \<Rightarrow> pyval option" where
  "stored_field res p k =
     (case res of
        Inl e \<Rightarrow> None
      | Inr r \<Rightarrow> (case db_after r p of None \<Rightarrow> None | Some d \<Rightarrow> map_of d k))"

section \<open>Sample inputs\<close>

text \<open>
  Two float parsers for concrete runs.  The first is Python's \<^verbatim>\<open>float\<close> on strings
  of at most 15 decimal digits, which are exactly representable; the second also reads
  \<open>nan\<close>.  Other strings are not used below.
\<close>

definition sample_float :: "string \<Rightarrow> pyfloat option" where
  "sample_float s =
     (if s \<noteq> [] \<and> list_all is_decimal s \<and> length s \<le> 15
      then Some (Finite (of_int (int_of_digits s)))
      else None)"

definition nan_float :: "string \<Rightarrow> pyfloat option" where
  "nan_float s = (if s = ''nan'' then Some NaN else sample_float s)"

text \<open>A generator of document ids: \<open>g\<close>, \<open>gx\<close>, \<open>gxx\<close>, ...\<close>

definition sample_id :: "nat \<Rightarrow> string" where
  "sample_id n = CHR ''g'' # replicate n (CHR ''x'')"

definition find_a :: row where
  "find_a = [(''id'', ''''), (''name'', ''Find A''), (''instructions'', ''tap A''),
     (''timeLimit'', ''30''), (''gameModeId'', ''gm1''), (''levelId'', ''lvl1''),
     (''answerBank'', ''A,a'')]"

text \<open>A row that names a game the store does not hold.\<close>

definition ghost_row :: row where
  "ghost_row = [(''id'', ''ghost''), (''name'', ''Find B''), (''instructions'', ''tap B''),
     (''timeLimit'', ''''), (''gameModeId'', ''gm1''), (''levelId'', ''lvl1''),
     (''answerBank'', '''')]"

text \<open>
  A store with one game mode, two levels and the game \<open>g1\<close> of level \<open>lvl1\<close>, and a
  document \<open>blank\<close> of the collection \<open>games\<close> that has no fields.
\<close>

definition stored_g1 :: doc where
  "stored_g1 =
     [(''name'', PStr ''Old name''), (''description'', PNone),
      (''instructions'', PStr ''tap A''), (''timeLimit'', PFloat (Finite 30)),
      (''gameModeId'', PStr ''gm1''), (''levelId'', PStr ''lvl1''),
      (''letterPosition'', PNone), (''targetLetter'', PNone),
      (''answerBank'', PList [PStr ''A'', PStr ''a'']),
      (''createdAt'', PTimestamp 1), (''updatedAt'', PTimestamp 1)]"

definition sample_db :: store where
  "sample_db = map_of
     [(game_mode_ref ''gm1'',
         [(''name'', PStr ''Letters''), (''description'', PStr ''Letter games'')]),
      (level_ref ''gm1'' ''lvl1'',
         [(''name'', PStr ''Level 1''), (''description'', PStr ''First''),
          (''sugTimeLimit'', PInt 60), (''gameRefs'', PList [PRef (game_ref ''g1'')])]),
      (level_ref ''gm1'' ''lvl2'',
         [(''name'', PStr ''Level 2''), (''description'', PStr ''Second''),
          (''sugTimeLimit'', PNone), (''gameRefs'', PList [])]),
      (game_ref ''g1'', stored_g1),
      (game_ref ''blank'', [])]"

definition sample_structure :: "row list" where
  "sample_structure =
     [[(''id'', ''gm1''), (''name'', ''Letters''), (''description'', ''Letter games''),
       (''levelId'', ''lvl1''), (''levelName'', ''Level 1''),
       (''levelDescription'', ''First''), (''levelSuggestedTimeLimit'', ''60'')],
      [(''id'', ''gm1''), (''name'', ''Letters''), (''description'', ''Letter games''),
       (''levelId'', ''lvl2''), (''levelName'', ''Level 2''),
       (''levelDescription'', ''Second''), (''levelSuggestedTimeLimit'', '''')]]"

text \<open>The row of \<open>g1\<close>: the stored document with another name.\<close>

definition row_g1 :: row where
  "row_g1 = [(''id'', ''g1''), (''name'', ''Find A''), (''instructions'', ''tap A''),
     (''timeLimit'', ''30''), (''gameModeId'', ''gm1''), (''levelId'', ''lvl1''),
     (''answerBank'', ''A,a'')]"

text \<open>The same row with other instructions, and the same row moved to level \<open>lvl2\<close>.\<close>

definition row_g1_edited :: row where
  "row_g1_edited = [(''id'', ''g1''), (''name'', ''Find A''), (''instructions'', ''tap the A''),
     (''timeLimit'', ''30''), (''gameModeId'', ''gm1''), (''levelId'', ''lvl1''),
     (''answerBank'', ''A,a'')]"

definition row_g1_moved :: row where
  "row_g1_moved = [(''id'', ''g1''), (''name'', ''Find A''), (''instructions'', ''tap A''),
     (''timeLimit'', ''30''), (''gameModeId'', ''gm1''), (''levelId'', ''lvl2''),
     (''answerBank'', ''A,a'')]"

text \<open>A row for the document without fields.\<close>

definition row_blank :: row where
  "row_blank = [(''id'', ''blank''), (''name'', ''Find A''), (''instructions'', ''tap A''),
     (''timeLimit'', ''30''), (''gameModeId'', ''gm1''), (''levelId'', ''lvl1''),
     (''answerBank'', ''A,a'')]"

text \<open>The document built from the row \<open>find_a\<close>.\<close>

definition find_a_data :: doc where
  "find_a_data =
     [(''name'', PStr ''Find A''), (''description'', PNone),
      (''instructions'', PStr ''tap A''), (''timeLimit'', PFloat (Finite 30)),
      (''gameModeId'', PStr ''gm1''), (''levelId'', PStr ''lvl1''),
      (''letterPosition'', PNone), (''targetLetter'', PNone),
      (''answerBank'', PList [PStr ''A'', PStr ''a''])]"

text \<open>The structure row of level \<open>lvl1\<close> with a new suggested time limit.\<close>

definition structure_row_90 :: row where
  "structure_row_90 =
     [(''id'', ''gm1''), (''name'', ''Letters''), (''description'', ''Letter games''),
      (''levelId'', ''lvl1''), (''levelName'', ''Level 1''),
      (''levelDescription'', ''First''), (''levelSuggestedTimeLimit'', ''90'')]"

definition stored_lvl1 :: doc where
  "stored_lvl1 =
     [(''name'', PStr ''Level 1''), (''description'', PStr ''First''),
      (''sugTimeLimit'', PInt 60), (''gameRefs'', PList [PRef (game_ref ''g1'')])]"

text \<open>A structure file without the level columns, and a game row without its level id.\<close>

definition bad_structure :: "row list" where
  "bad_structure =
     [[(''id'', ''gm1''), (''name'', ''Letters''), (''description'', ''Letter games''),
       (''levelId'', ''lvl1'')]]"

definition row_no_level :: row where
  "row_no_level = [(''id'', ''''), (''name'', ''Find C''), (''instructions'', ''tap C''),
     (''timeLimit'', ''30''), (''gameModeId'', ''gm1''), (''answerBank'', ''C,c'')]"

text \<open>A new game whose time limit is not a number.\<close>

definition row_nan :: row where
  "row_nan = [(''id'', ''''), (''name'', ''Find N''), (''instructions'', ''tap N''),
     (''timeLimit'', ''nan''), (''gameModeId'', ''gm1''), (''levelId'', ''lvl1''),
     (''answerBank'', '''')]"

text \<open>
  A new game of a games file without the column \<open>name\<close>, and the structure row of level
  \<open>lvl1\<close> with the superscript two as suggested time limit.
\<close>

definition row_no_name :: row where
  "row_no_name = [(''id'', ''''), (''instructions'', ''tap A''), (''timeLimit'', ''30''),
     (''gameModeId'', ''gm1''), (''levelId'', ''lvl1''), (''answerBank'', ''A,a'')]"

definition structure_row_sup2 :: row where
  "structure_row_sup2 =
     [(''id'', ''gm1''), (''name'', ''Letters''), (''description'', ''Letter games''),
      (''levelId'', ''lvl1''), (''levelName'', ''Level 1''),
      (''levelDescription'', ''First''), (''levelSuggestedTimeLimit'', [CHR 0xB2])]"

text \<open>The games file that holds the row \<open>find_a\<close>.\<close>

definition find_a_file :: "string list \<times> string list list" where
  "find_a_file =
     ([''id'', ''name'', ''instructions'', ''timeLimit'', ''gameModeId'', ''levelId'',
       ''answerBank''],
      [['''', ''Find A'', ''tap A'', ''30'', ''gm1'', ''lvl1'', ''A,a'']])"

text \<open>
  A run on the sample store, and the run after it: on the store the first run left, the
  games file the first run left and the same structure file.
\<close>

definition rows_after :: "row list \<Rightarrow> error + run \<Rightarrow> row list option" where
  "rows_after games_csv res =
     (case file_of res of None \<Rightarrow> Some games_csv | Some file \<Rightarrow> read_csv file)"

definition first_run :: "(string \<Rightarrow> pyfloat option) \<Rightarrow> row list \<Rightarrow> error + run" where
  "first_run pyfloat games_csv =
     upload_games_from_csv pyfloat sample_id 7 sample_db games_csv sample_structure"

definition second_run :: "(string \<Rightarrow> pyfloat option) \<Rightarrow> row list \<Rightarrow> (error + run) option" where
  "second_run pyfloat games_csv =
     (case rows_after games_csv (first_run pyfloat games_csv) of
        None \<Rightarrow> None
      | Some rows \<Rightarrow>
          Some (upload_games_from_csv pyfloat sample_id 8
                  (db_of sample_db (first_run pyfloat games_csv)) rows sample_structure))"

definition game_writes_of :: "error + run \<Rightarrow> write_op list" where
  "game_writes_of res = game_writes (batch_of res)"

text \<open>The row \<open>find_a\<close> with the first generated id, and the batch of the run over it.\<close>

definition find_a_g :: row where
  "find_a_g = [(''id'', ''g''), (''name'', ''Find A''), (''instructions'', ''tap A''),
     (''timeLimit'', ''30''), (''gameModeId'', ''gm1''), (''levelId'', ''lvl1''),
     (''answerBank'', ''A,a'')]"

definition find_a_batch :: "write_op list" where
  "find_a_batch =
     [Batch_update (game_mode_ref ''gm1'')
        [(''name'', PStr ''Letters''), (''description'', PStr ''Letter games'')],
      Batch_update (level_ref ''gm1'' ''lvl1'')
        [(''name'', PStr ''Level 1''), (''description'', PStr ''First''),
         (''sugTimeLimit'', PInt 60)],
      Batch_update (game_mode_ref ''gm1'')
        [(''name'', PStr ''Letters''), (''description'', PStr ''Letter games'')],
      Batch_update (level_ref ''gm1'' ''lvl2'')
        [(''name'', PStr ''Level 2''), (''description'', PStr ''Second''),
         (''sugTimeLimit'', PNone)],
      Batch_set (game_ref ''g'')
        (find_a_data @ [(''createdAt'', SERVER_TIMESTAMP), (''updatedAt'', SERVER_TIMESTAMP)]),
      Batch_update (level_ref ''gm1'' ''lvl1'')
        [(''gameRefs'', ArrayUnion [PRef (game_ref ''g'')])]]"

section \<open>Dictionaries and the diff check\<close>

lemma map_of_setitem: "map_of (setitem k v d) = (map_of d)(k \<mapsto> v)"
  by (induction d) (auto simp: fun_eq_iff)

lemma keys_setitem:
  "map fst (setitem k v d) = (if k \<in> fst ` set d then map fst d else map fst d @ [k])"
  by (induction k v d rule: setitem.induct) force+

lemma changed_on_iff:
  "changed_on ks e d \<longleftrightarrow> (\<exists>k \<in> set ks. py_ne (doc_get e k) (doc_get d k))"
  by (induction ks) auto

lemma has_game_changed_iff:
  "has_game_changed e d \<longleftrightarrow> (\<exists>k \<in> set keys_to_check. py_ne (doc_get e k) (doc_get d k))"
  by (simp add: has_game_changed_def changed_on_iff)

section \<open>Building the game document\<close>

lemma build_game_data_Inr:
  assumes "map_of game ''name'' = Some name"
    and "map_of game ''instructions'' = Some instructions"
    and "map_of game ''timeLimit'' = Some limit"
    and "time_limit_of pyfloat limit = Inr time_limit"
    and "map_of game ''answerBank'' = Some answer_bank"
  shows "build_game_data pyfloat game game_mode_id level_id =
     Inr [(''name'', PStr name),
          (''description'', row_get game ''description''),
          (''instructions'', PStr instructions),
          (''timeLimit'', time_limit),
          (''gameModeId'', PStr game_mode_id),
          (''levelId'', PStr level_id),
          (''letterPosition'', row_get game ''letterPosition''),
          (''targetLetter'', row_get game ''targetLetter''),
          (''answerBank'', answer_bank_of answer_bank)]"
  using assms by (simp add: build_game_data_def ebind_def getitem_def)

lemma build_game_data_InrD:
  assumes "build_game_data pyfloat game game_mode_id level_id = Inr game_data"
  shows "\<exists>name instructions limit time_limit answer_bank.
     map_of game ''name'' = Some name \<and>
     map_of game ''instructions'' = Some instructions \<and>
     map_of game ''timeLimit'' = Some limit \<and>
     time_limit_of pyfloat limit = Inr time_limit \<and>
     map_of game ''answerBank'' = Some answer_bank \<and>
     game_data =
       [(''name'', PStr name),
        (''description'', row_get game ''description''),
        (''instructions'', PStr instructions),
        (''timeLimit'', time_limit),
        (''gameModeId'', PStr game_mode_id),
        (''levelId'', PStr level_id),
        (''letterPosition'', row_get game ''letterPosition''),
        (''targetLetter'', row_get game ''targetLetter''),
        (''answerBank'', answer_bank_of answer_bank)]"
  using assms
  by (auto simp: build_game_data_def ebind_def getitem_def split: option.splits sum.splits)

section \<open>One game row\<close>

lemma game_step_no_level:
  "map_of game ''levelId'' = None \<Longrightarrow>
   game_step pyfloat new_id existing_games n game = (n, Inl (KeyError ''levelId''))"
  by (simp add: game_step_def getitem_def)

lemma game_step_no_mode:
  "map_of game ''levelId'' = Some level_id \<Longrightarrow> map_of game ''gameModeId'' = None \<Longrightarrow>
   game_step pyfloat new_id existing_games n game = (n, Inl (KeyError ''gameModeId''))"
  by (simp add: game_step_def getitem_def)

lemma game_step_create:
  assumes "map_of game ''levelId'' = Some level_id"
    and "map_of game ''gameModeId'' = Some game_mode_id"
    and "no_id (map_of game ''id'')"
  shows "game_step pyfloat new_id existing_games n game =
     (case build_game_data pyfloat game game_mode_id level_id of
        Inl e \<Rightarrow> (Suc n, Inl e)
      | Inr game_data \<Rightarrow>
          (Suc n,
           Inr ([Batch_set (game_ref (new_id n))
                   (dict_update game_data
                      [(''createdAt'', SERVER_TIMESTAMP), (''updatedAt'', SERVER_TIMESTAMP)]),
                 Batch_update (level_ref game_mode_id level_id)
                   [(''gameRefs'', ArrayUnion [PRef (game_ref (new_id n))])]],
                [New_game (new_id n)],
                setitem ''id'' (new_id n) game)))"
  using assms by (simp add: game_step_def getitem_def Let_def)

lemma game_step_existing:
  assumes "map_of game ''levelId'' = Some level_id"
    and "map_of game ''gameModeId'' = Some game_mode_id"
    and "map_of game ''id'' = Some game_id" and "game_id \<noteq> []"
  shows "game_step pyfloat new_id existing_games n game =
     (if truthy (existing_games game_id) then
        (case build_game_data pyfloat game game_mode_id level_id of
           Inl e \<Rightarrow> (n, Inl e)
         | Inr game_data \<Rightarrow>
             (if has_game_changed (the (existing_games game_id)) game_data then
                (n, Inr ([Batch_update (game_ref game_id)
                            (dict_update game_data [(''updatedAt'', SERVER_TIMESTAMP)])],
                         [Game_updated game_id], game))
              else (n, Inr ([], [No_changes game_id], game))))
      else (n, Inr ([], [Not_found_skipping game_id], game)))"
  using assms by (simp add: game_step_def getitem_def Let_def no_id_def split: sum.splits)

lemma game_step_unknown_id:
  assumes "map_of game ''id'' = Some game_id" and "game_id \<noteq> []"
    and "existing_games game_id = None"
  shows "game_step pyfloat new_id existing_games n game =
     (if map_of game ''levelId'' = None then (n, Inl (KeyError ''levelId''))
      else if map_of game ''gameModeId'' = None then (n, Inl (KeyError ''gameModeId''))
      else (n, Inr ([], [Not_found_skipping game_id], game)))"
proof (cases "map_of game ''levelId''")
  case None
  then show ?thesis by (simp add: game_step_no_level)
next
  case level: (Some level_id)
  show ?thesis
  proof (cases "map_of game ''gameModeId''")
    case None
    with level show ?thesis by (simp add: game_step_no_mode)
  next
    case (Some game_mode_id)
    with level assms show ?thesis
      by (simp add: game_step_existing truthy_def)
  qed
qed

lemma build_game_data_keys:
  "build_game_data pyfloat game game_mode_id level_id = Inr game_data \<Longrightarrow>
   map fst game_data =
     [''name'', ''description'', ''instructions'', ''timeLimit'', ''gameModeId'', ''levelId'',
      ''letterPosition'', ''targetLetter'', ''answerBank'']"
  by (auto dest!: build_game_data_InrD)

lemma build_game_data_stamped:
  assumes "build_game_data pyfloat game game_mode_id level_id = Inr game_data"
  shows "dict_update game_data [(''updatedAt'', SERVER_TIMESTAMP)] =
           game_data @ [(''updatedAt'', SERVER_TIMESTAMP)]"
    and "dict_update game_data
           [(''createdAt'', SERVER_TIMESTAMP), (''updatedAt'', SERVER_TIMESTAMP)] =
           game_data @ [(''createdAt'', SERVER_TIMESTAMP), (''updatedAt'', SERVER_TIMESTAMP)]"
  using build_game_data_InrD [OF assms] by auto

lemma build_game_data_name:
  assumes "build_game_data pyfloat game game_mode_id level_id = Inr game_data"
  shows "\<exists>name. map_of game ''name'' = Some name \<and> map_of game_data ''name'' = Some (PStr name)"
  using build_game_data_InrD [OF assms] by auto

lemma build_game_data_ids:
  assumes "build_game_data pyfloat game game_mode_id level_id = Inr game_data"
  shows "map_of game_data ''gameModeId'' = Some (PStr game_mode_id)"
    and "map_of game_data ''levelId'' = Some (PStr level_id)"
  using build_game_data_InrD [OF assms] by auto

lemma game_step_levelD:
  "game_step pyfloat new_id existing_games n game = (n', Inr r) \<Longrightarrow>
   \<exists>level_id game_mode_id.
     map_of game ''levelId'' = Some level_id \<and> map_of game ''gameModeId'' = Some game_mode_id"
  by (cases "map_of game ''levelId''"; cases "map_of game ''gameModeId''")
     (auto simp: game_step_no_level game_step_no_mode)

text \<open>
  For a stored document with at least one field the step follows the diff check: it
  adds the update exactly when a key of the diff list differs.
\<close>

lemma stored_with_fields_updated_iff_changed:
  assumes "map_of game ''levelId'' = Some level_id"
    and "map_of game ''gameModeId'' = Some game_mode_id"
    and "map_of game ''id'' = Some game_id" and "game_id \<noteq> []"
    and "existing_games game_id = Some stored" and "stored \<noteq> []"
    and "build_game_data pyfloat game game_mode_id level_id = Inr game_data"
  shows "game_step pyfloat new_id existing_games n game =
     (if \<exists>k \<in> set keys_to_check. py_ne (doc_get stored k) (doc_get game_data k)
      then (n, Inr ([Batch_update (game_ref game_id)
                       (game_data @ [(''updatedAt'', SERVER_TIMESTAMP)])],
                    [Game_updated game_id], game))
      else (n, Inr ([], [No_changes game_id], game)))"
  using game_step_existing [OF assms(1-4), of pyfloat new_id existing_games n] assms(5-7)
    build_game_data_stamped(1) [OF assms(7)]
  by (simp add: truthy_def has_game_changed_iff)

section \<open>The loop over the game rows\<close>

lemma games_loop_Cons_Inr:
  assumes "games_loop pyfloat new_id existing_games n (game # rest) = Inr (ws, ps, csv, updated)"
  shows "\<exists>n' ws' ps' csv' updated'.
     games_loop pyfloat new_id existing_games n' rest = Inr (ws', ps', csv', updated') \<and>
     ((\<exists>k. game_step pyfloat new_id existing_games n game = (n', Inl (KeyError k)) \<and>
           ws = ws' \<and> ps = Missing_field k game # ps' \<and> csv = game # csv' \<and>
           updated = updated') \<or>
      (\<exists>w p game'. game_step pyfloat new_id existing_games n game = (n', Inr (w, p, game')) \<and>
           ws = w @ ws' \<and> ps = p @ ps' \<and> csv = game' # csv' \<and>
           updated = game' # updated'))"
  using assms by (auto split: prod.splits sum.splits error.splits)

lemma build_game_data_missing:
  assumes "map_of game ''name'' = None \<or> map_of game ''instructions'' = None \<or>
           map_of game ''timeLimit'' = None \<or> map_of game ''answerBank'' = None"
    and "\<forall>limit. map_of game ''timeLimit'' = Some limit \<longrightarrow> limit \<noteq> [] \<longrightarrow>
           pyfloat limit \<noteq> None"
  shows "\<exists>k. build_game_data pyfloat game game_mode_id level_id = Inl (KeyError k)"
  using assms
  by (auto simp: build_game_data_def ebind_def getitem_def time_limit_of_def
      split: option.splits)

section \<open>Writes and their effect on a document\<close>

lemma array_field_setitem:
  "array_field (setitem k (PList xs) d) k = xs"
  by (simp add: array_field_def map_of_setitem)

lemma write_doc_array_union:
  "write_doc now (Some level) (Batch_update p [(k, ArrayUnion [x])]) =
     Some (setitem k (PList (if x \<in> set (array_field level k) then array_field level k
                             else array_field level k @ [x])) level)"
  by (simp add: resolve_def)

lemma build_game_data_no_gameRefs:
  "build_game_data pyfloat game game_mode_id level_id = Inr game_data \<Longrightarrow>
   ''gameRefs'' \<notin> fst ` set game_data"
  by (auto dest!: build_game_data_InrD)

lemma game_step_with_id_targets:
  assumes "map_of game ''id'' = Some game_id" and "game_id \<noteq> []"
    and "game_step pyfloat new_id existing_games n game = (n', Inr (ws, ps, game'))"
    and "w \<in> set ws"
  shows "target w = game_ref game_id \<and> ''gameRefs'' \<notin> fst ` set (payload w)"
proof -
  from game_step_levelD [OF assms(3)] obtain level_id game_mode_id
    where lvl: "map_of game ''levelId'' = Some level_id"
      and gm: "map_of game ''gameModeId'' = Some game_mode_id" by blast
  note ex = game_step_existing [OF lvl gm assms(1,2), of pyfloat new_id existing_games n]
  show ?thesis
  proof (cases "build_game_data pyfloat game game_mode_id level_id")
    case (Inl e)
    with ex assms(3,4) show ?thesis by (auto split: if_splits)
  next
    case (Inr game_data)
    from build_game_data_no_gameRefs [OF Inr] have "''gameRefs'' \<notin> fst ` set game_data" .
    with ex assms(3,4) Inr build_game_data_stamped(1) [OF Inr] show ?thesis
      by (auto split: if_splits)
  qed
qed

lemma structure_step_existing_level:
  assumes "map_of structure ''id'' = Some game_mode_id"
    and "map_of structure ''levelId'' = Some level_id"
    and "map_of structure ''name'' = Some name"
    and "map_of structure ''description'' = Some description"
    and "map_of structure ''levelName'' = Some level_name"
    and "map_of structure ''levelDescription'' = Some level_description"
    and "map_of structure ''levelSuggestedTimeLimit'' = Some sug"
    and "sug_time_limit sug = Inr sug_limit"
    and "db (level_ref game_mode_id level_id) = Some level"
  shows "structure_step db structure =
     Inr ((if db (game_mode_ref game_mode_id) \<noteq> None
           then [Batch_update (game_mode_ref game_mode_id)
                   [(''name'', PStr name), (''description'', PStr description)]]
           else [Batch_set (game_mode_ref game_mode_id)
                   [(''name'', PStr name), (''description'', PStr description)]]) @
          [Batch_update (level_ref game_mode_id level_id)
             [(''name'', PStr level_name), (''description'', PStr level_description),
              (''sugTimeLimit'', sug_limit)]],
          (if db (game_mode_ref game_mode_id) \<noteq> None then []
           else [Creating_gameMode game_mode_id]))"
  using assms by (simp add: structure_step_def ebind_def getitem_def Let_def)

lemma resolve_plain:
  "resolve now old k PNone = PNone"
  "resolve now old k (PStr s) = PStr s"
  "resolve now old k (PInt i) = PInt i"
  "resolve now old k (PFloat f) = PFloat f"
  "resolve now old k (PList xs) = PList xs"
  "resolve now old k (PRef p) = PRef p"
  "resolve now old k (PTimestamp t) = PTimestamp t"
  by (simp_all add: resolve_def)

lemma resolve_sug_time_limit:
  "sug_time_limit sug = Inr v \<Longrightarrow> resolve now old k v = v"
  by (auto simp: resolve_def sug_time_limit_def split: if_splits sum.splits)

section \<open>The run after a run\<close>

lemma game_step_counter:
  "game_step pyfloat new_id existing_games n game = (n', r) \<Longrightarrow> n' = n \<or> n' = Suc n"
  by (auto simp: game_step_def Let_def split: sum.splits if_splits)

lemma game_step_InrD:
  assumes "game_step pyfloat new_id existing_games n game = (n', Inr (w, p, game'))"
  shows "\<exists>level_id game_mode_id.
     map_of game ''levelId'' = Some level_id \<and>
     map_of game ''gameModeId'' = Some game_mode_id \<and>
     ((no_id (map_of game ''id'') \<and> n' = Suc n \<and> game' = setitem ''id'' (new_id n) game \<and>
       (\<exists>game_data. build_game_data pyfloat game game_mode_id level_id = Inr game_data \<and>
          w = [Batch_set (game_ref (new_id n))
                 (game_data @
                    [(''createdAt'', SERVER_TIMESTAMP), (''updatedAt'', SERVER_TIMESTAMP)]),
               Batch_update (level_ref game_mode_id level_id)
                 [(''gameRefs'', ArrayUnion [PRef (game_ref (new_id n))])]])) \<or>
      (\<exists>game_id. map_of game ''id'' = Some game_id \<and> game_id \<noteq> [] \<and> n' = n \<and>
         game' = game \<and>
         ((\<not> truthy (existing_games game_id) \<and> w = []) \<or>
          (\<exists>stored game_data. existing_games game_id = Some stored \<and> stored \<noteq> [] \<and>
             build_game_data pyfloat game game_mode_id level_id = Inr game_data \<and>
             ((\<not> has_game_changed stored game_data \<and> w = []) \<or>
              (has_game_changed stored game_data \<and>
               w = [Batch_update (game_ref game_id)
                      (game_data @ [(''updatedAt'', SERVER_TIMESTAMP)])]))))))"
proof -
  from game_step_levelD [OF assms] obtain level_id game_mode_id
    where lvl: "map_of game ''levelId'' = Some level_id"
      and gm: "map_of game ''gameModeId'' = Some game_mode_id" by blast
  show ?thesis
  proof (cases "no_id (map_of game ''id'')")
    case True
    note cr = game_step_create [OF lvl gm True, of pyfloat new_id existing_games n]
    from cr assms obtain game_data
      where b: "build_game_data pyfloat game game_mode_id level_id = Inr game_data"
      by (cases "build_game_data pyfloat game game_mode_id level_id") auto
    from cr assms b build_game_data_stamped(2) [OF b] lvl gm True show ?thesis
      by auto
  next
    case False
    then obtain game_id where gid: "map_of game ''id'' = Some game_id" "game_id \<noteq> []"
      by (auto simp: no_id_def)
    note ex = game_step_existing [OF lvl gm gid, of pyfloat new_id existing_games n]
    show ?thesis
    proof (cases "truthy (existing_games game_id)")
      case nt: False
      with ex assms lvl gm gid False show ?thesis by auto
    next
      case tr: True
      then obtain stored where st: "existing_games game_id = Some stored" "stored \<noteq> []"
        by (auto simp: truthy_def)
      from ex assms tr obtain game_data
        where b: "build_game_data pyfloat game game_mode_id level_id = Inr game_data"
        by (cases "build_game_data pyfloat game game_mode_id level_id") auto
      from ex assms tr b st build_game_data_stamped(1) [OF b] lvl gm gid False show ?thesis
        by (auto split: if_splits)
    qed
  qed
qed

lemma apply_write_other:
  "apply_write now s w = Some s' \<Longrightarrow> target w \<noteq> p \<Longrightarrow> s' p = s p"
  by (auto simp: apply_write_def split: option.splits)

lemma apply_write_same:
  "apply_write now s w = Some s' \<Longrightarrow> s' (target w) = write_doc now (s (target w)) w"
  by (auto simp: apply_write_def split: option.splits)

lemma commit_untouched:
  "commit now s ws = Some s' \<Longrightarrow> \<forall>w \<in> set ws. target w \<noteq> p \<Longrightarrow> s' p = s p"
proof (induction ws arbitrary: s)
  case Nil
  then show ?case by simp
next
  case (Cons w ws)
  from Cons.prems(1) obtain s1 where s1: "apply_write now s w = Some s1"
    and rest: "commit now s1 ws = Some s'"
    by (auto split: option.splits)
  from Cons.IH [OF rest] Cons.prems(2) have "s' p = s1 p" by simp
  with apply_write_other [OF s1, of p] Cons.prems(2) show ?case by simp
qed

lemma commit_append:
  "commit now s (xs @ ys) =
     (case commit now s xs of None \<Rightarrow> None | Some s1 \<Rightarrow> commit now s1 ys)"
  by (induction xs arbitrary: s) (auto split: option.splits)

lemma commit_single_target:
  assumes "commit now s (pre @ w # post) = Some s'"
    and "\<forall>x \<in> set pre. target x \<noteq> target w"
    and "\<forall>x \<in> set post. target x \<noteq> target w"
  shows "s' (target w) = write_doc now (s (target w)) w"
proof -
  from assms(1) obtain s1 s2 where s1: "commit now s pre = Some s1"
    and s2: "apply_write now s1 w = Some s2" and s3: "commit now s2 post = Some s'"
    by (auto simp: commit_append split: option.splits)
  from commit_untouched [OF s1 assms(2)] have "s1 (target w) = s (target w)" .
  moreover from commit_untouched [OF s3 assms(3)] have "s' (target w) = s2 (target w)" .
  ultimately show ?thesis using apply_write_same [OF s2] by simp
qed

lemma map_of_merge_fields:
  "distinct (map fst e) \<Longrightarrow>
   map_of (merge_fields now old acc e) k =
     (case map_of e k of None \<Rightarrow> map_of acc k | Some v \<Rightarrow> Some (resolve now old k v))"
proof (induction e arbitrary: acc)
  case Nil
  then show ?case by simp
next
  case (Cons kv e)
  obtain k' v' where kv: "kv = (k', v')" by (cases kv)
  from Cons.prems kv have d: "distinct (map fst e)" and nk: "k' \<notin> fst ` set e" by auto
  from nk have none: "map_of e k' = None" by (simp add: map_of_eq_None_iff)
  show ?case
    using Cons.IH [OF d, of "setitem k' (resolve now old k' v') acc"] kv none
    by (auto simp: map_of_setitem split: option.splits)
qed

lemma resolve_row_get: "resolve now old k (row_get game j) = row_get game j"
  by (simp add: row_get_def resolve_def split: option.splits)

lemma resolve_time_limit:
  "time_limit_of pyfloat s = Inr v \<Longrightarrow> resolve now old k v = v"
  by (auto simp: time_limit_of_def resolve_def split: if_splits option.splits)

lemma resolve_answer_bank: "resolve now old k (answer_bank_of s) = answer_bank_of s"
  by (simp add: answer_bank_of_def resolve_def)

lemma py_eq_row_get: "py_eq (row_get game j) (row_get game j)"
  by (simp add: row_get_def split: option.splits)

lemma py_eq_time_limit:
  "time_limit_of pyfloat s = Inr v \<Longrightarrow> pyfloat s \<noteq> Some NaN \<Longrightarrow> py_eq v v"
  by (auto simp: time_limit_of_def float_eq_def split: if_splits option.splits)

lemma py_eq_list_strs: "py_eq_list (map PStr xs) (map PStr xs)"
  by (induction xs) auto

lemma py_eq_answer_bank: "py_eq (answer_bank_of s) (answer_bank_of s)"
  using py_eq_list_strs [of "map strip (split_comma s)"]
  by (simp add: answer_bank_of_def comp_def)

lemma rebuilt_unchanged:
  assumes "build_game_data pyfloat game game_mode_id level_id = Inr game_data"
    and "\<forall>limit. map_of game ''timeLimit'' = Some limit \<longrightarrow> pyfloat limit \<noteq> Some NaN"
    and "\<forall>k \<in> set keys_to_check.
           map_of d k = map_option (resolve now old k) (map_of game_data k)"
  shows "\<not> has_game_changed d game_data"
proof -
  from build_game_data_InrD [OF assms(1)] obtain name instructions limit time_limit answer_bank
    where lim: "map_of game ''timeLimit'' = Some limit"
      and tl: "time_limit_of pyfloat limit = Inr time_limit"
      and data: "game_data =
       [(''name'', PStr name),
        (''description'', row_get game ''description''),
        (''instructions'', PStr instructions),
        (''timeLimit'', time_limit),
        (''gameModeId'', PStr game_mode_id),
        (''levelId'', PStr level_id),
        (''letterPosition'', row_get game ''letterPosition''),
        (''targetLetter'', row_get game ''targetLetter''),
        (''answerBank'', answer_bank_of answer_bank)]"
    by blast
  from assms(2) lim have "pyfloat limit \<noteq> Some NaN" by blast
  from py_eq_time_limit [OF tl this] have "py_eq time_limit time_limit" .
  then show ?thesis
    using assms(3) resolve_time_limit [OF tl]
    by (simp add: has_game_changed_def keys_to_check_def data doc_get_def py_ne_def
        resolve_row_get resolve_answer_bank py_eq_row_get py_eq_answer_bank resolve_plain)
qed

lemma written_doc_keeps_data:
  assumes "build_game_data pyfloat game game_mode_id level_id = Inr game_data"
    and "stamps = [(''createdAt'', SERVER_TIMESTAMP), (''updatedAt'', SERVER_TIMESTAMP)] \<or>
         stamps = [(''updatedAt'', SERVER_TIMESTAMP)]"
    and "k \<in> set keys_to_check"
  shows "map_of (merge_fields now old acc (game_data @ stamps)) k =
           map_option (resolve now old k) (map_of game_data k)"
proof -
  from build_game_data_keys [OF assms(1)] assms(2)
  have d: "distinct (map fst (game_data @ stamps))" by auto
  from build_game_data_keys [OF assms(1)] assms(3)
  have "k \<in> set (map fst game_data)" by (simp add: keys_to_check_def)
  then obtain v where v: "map_of game_data k = Some v"
    by (metis list.set_map map_of_eq_None_iff not_Some_eq)
  then have "map_of (game_data @ stamps) k = Some v" by simp
  with map_of_merge_fields [OF d, of now old acc k] v show ?thesis by simp
qed

lemma game_ref_inject [simp]: "game_ref a = game_ref b \<longleftrightarrow> a = b"
  by (simp add: game_ref_def)

lemma level_ref_not_game_ref [simp]: "level_ref gm lvl \<noteq> game_ref g"
  by (simp add: level_ref_def game_ref_def)

lemma game_mode_ref_not_game_ref [simp]: "game_mode_ref gm \<noteq> game_ref g"
  by (simp add: game_mode_ref_def game_ref_def)

lemma row_ids_Cons_id:
  "map_of r ''id'' = Some game_id \<Longrightarrow> game_id \<noteq> [] \<Longrightarrow>
   row_ids (r # rs) = game_id # row_ids rs"
  by (simp add: row_ids_def)

lemma row_ids_Cons_no_id: "no_id (map_of r ''id'') \<Longrightarrow> row_ids (r # rs) = row_ids rs"
  by (auto simp: row_ids_def no_id_def)

lemma row_ids_Cons_subset: "set (row_ids rs) \<subseteq> set (row_ids (r # rs))"
  by (simp add: row_ids_def)

lemma row_ids_Cons_distinct: "distinct (row_ids (r # rs)) \<Longrightarrow> distinct (row_ids rs)"
  by (simp add: row_ids_def)

lemma build_game_data_setitem_id:
  "build_game_data pyfloat (setitem ''id'' v game) game_mode_id level_id =
   build_game_data pyfloat game game_mode_id level_id"
  by (simp add: build_game_data_def getitem_def row_get_def map_of_setitem)

lemma games_loop_targets:
  assumes "games_loop pyfloat new_id existing_games n rows = Inr (ws, ps, csv, updated)"
    and "x \<in> set ws"
  shows "(\<exists>k \<ge> n. target x = game_ref (new_id k)) \<or>
         (\<exists>g \<in> set (row_ids rows). target x = game_ref g) \<or>
         (\<exists>gm lvl. target x = level_ref gm lvl)"
  using assms
proof (induction rows arbitrary: n ws ps csv updated)
  case Nil
  then show ?case by simp
next
  case (Cons game rest)
  from games_loop_Cons_Inr [OF Cons.prems(1)] obtain n' ws' ps' csv' updated'
    where rest: "games_loop pyfloat new_id existing_games n' rest =
                   Inr (ws', ps', csv', updated')"
      and step: "(\<exists>k. game_step pyfloat new_id existing_games n game = (n', Inl (KeyError k)) \<and>
                     ws = ws') \<or>
                 (\<exists>w p game'. game_step pyfloat new_id existing_games n game =
                     (n', Inr (w, p, game')) \<and> ws = w @ ws')"
    by blast
  have mono: "n \<le> n'"
    using step game_step_counter [of pyfloat new_id existing_games n game n'] by auto
  have tail: ?case if "x \<in> set ws'"
    using Cons.IH [OF rest that] mono row_ids_Cons_subset [of rest game]
    by (meson le_trans subsetD)
  from step show ?case
  proof
    assume "\<exists>k. game_step pyfloat new_id existing_games n game = (n', Inl (KeyError k)) \<and>
              ws = ws'"
    with Cons.prems(2) tail show ?case by blast
  next
    assume "\<exists>w p game'. game_step pyfloat new_id existing_games n game =
              (n', Inr (w, p, game')) \<and> ws = w @ ws'"
    then obtain w p game'
      where st: "game_step pyfloat new_id existing_games n game = (n', Inr (w, p, game'))"
        and ws: "ws = w @ ws'" by blast
    show ?case
    proof (cases "x \<in> set ws'")
      case True
      then show ?thesis by (rule tail)
    next
      case False
      with Cons.prems(2) ws have xw: "x \<in> set w" by simp
      from game_step_InrD [OF st] xw
      have "target x = game_ref (new_id n) \<or> (\<exists>gm lvl. target x = level_ref gm lvl) \<or>
            (\<exists>game_id. map_of game ''id'' = Some game_id \<and> game_id \<noteq> [] \<and>
               target x = game_ref game_id)"
        by auto blast
      then show ?thesis
        by (auto simp: row_ids_Cons_id)
    qed
  qed
qed

lemma game_step_rerun_created:
  assumes "map_of game ''levelId'' = Some level_id"
    and "map_of game ''gameModeId'' = Some game_mode_id"
    and "build_game_data pyfloat game game_mode_id level_id = Inr game_data"
    and "new \<noteq> []"
    and "\<forall>limit. map_of game ''timeLimit'' = Some limit \<longrightarrow> pyfloat limit \<noteq> Some NaN"
    and "existing_games new =
           Some (merge_fields now [] []
                   (game_data @
                      [(''createdAt'', SERVER_TIMESTAMP), (''updatedAt'', SERVER_TIMESTAMP)]))"
  shows "game_step pyfloat new_id existing_games m (setitem ''id'' new game) =
           (m, Inr ([], [No_changes new], setitem ''id'' new game))"
proof -
  let ?game' = "setitem ''id'' new game"
  let ?d = "merge_fields now [] []
              (game_data @
                 [(''createdAt'', SERVER_TIMESTAMP), (''updatedAt'', SERVER_TIMESTAMP)])"
  have keys: "\<forall>k \<in> set keys_to_check.
                map_of ?d k = map_option (resolve now [] k) (map_of game_data k)"
    using written_doc_keeps_data [OF assms(3), of _ _ now "[]" "[]"] by blast
  from rebuilt_unchanged [OF assms(3,5) keys] have same: "\<not> has_game_changed ?d game_data" .
  from keys build_game_data_ids(2) [OF assms(3)] have "map_of ?d ''levelId'' \<noteq> None"
    by (simp add: keys_to_check_def)
  then have ne: "?d \<noteq> []" by auto
  show ?thesis
    using game_step_existing [of ?game' level_id game_mode_id new pyfloat new_id
        existing_games m] assms(1,2,3,4,6) same ne
    by (simp add: map_of_setitem build_game_data_setitem_id truthy_def)
qed

lemma game_step_rerun_updated:
  assumes "map_of game ''levelId'' = Some level_id"
    and "map_of game ''gameModeId'' = Some game_mode_id"
    and "map_of game ''id'' = Some game_id" and "game_id \<noteq> []"
    and "build_game_data pyfloat game game_mode_id level_id = Inr game_data"
    and "\<forall>limit. map_of game ''timeLimit'' = Some limit \<longrightarrow> pyfloat limit \<noteq> Some NaN"
    and "existing_games game_id =
           Some (merge_fields now stored stored
                   (game_data @ [(''updatedAt'', SERVER_TIMESTAMP)]))"
  shows "game_step pyfloat new_id existing_games m game =
           (m, Inr ([], [No_changes game_id], game))"
proof -
  let ?d = "merge_fields now stored stored (game_data @ [(''updatedAt'', SERVER_TIMESTAMP)])"
  have keys: "\<forall>k \<in> set keys_to_check.
                map_of ?d k = map_option (resolve now stored k) (map_of game_data k)"
    using written_doc_keeps_data [OF assms(5), of _ _ now stored stored] by blast
  from rebuilt_unchanged [OF assms(5,6) keys] have same: "\<not> has_game_changed ?d game_data" .
  from keys build_game_data_ids(2) [OF assms(5)] have "map_of ?d ''levelId'' \<noteq> None"
    by (simp add: keys_to_check_def)
  then have ne: "?d \<noteq> []" by auto
  show ?thesis
    using game_step_existing [OF assms(1,2,3,4), of pyfloat new_id existing_games m]
      assms(5,7) same ne
    by (simp add: truthy_def)
qed

lemma game_step_rerun_same:
  assumes "map_of game ''id'' = Some game_id" and "game_id \<noteq> []"
    and "existing_games' game_id = existing_games game_id"
    and "game_step pyfloat new_id existing_games n game = (n', Inr ([], p, game'))"
  shows "game_step pyfloat new_id' existing_games' m game = (m, Inr ([], p, game))"
proof -
  from game_step_levelD [OF assms(4)] obtain level_id game_mode_id
    where lvl: "map_of game ''levelId'' = Some level_id"
      and gm: "map_of game ''gameModeId'' = Some game_mode_id" by blast
  show ?thesis
    using game_step_existing [OF lvl gm assms(1,2), of pyfloat new_id existing_games n]
      game_step_existing [OF lvl gm assms(1,2), of pyfloat new_id' existing_games' m]
      assms(3,4)
    by (auto split: if_splits sum.splits)
qed

lemma second_pass:
  assumes "games_loop pyfloat new_id (fetch_existing_games db) n games =
             Inr (ws, ps, csv, updated)"
    and "commit now db (pre @ ws) = Some db'"
    and "\<forall>x \<in> set pre. (\<forall>g \<in> set (row_ids games). target x \<noteq> game_ref g) \<and>
                        (\<forall>k \<ge> n. target x \<noteq> game_ref (new_id k))"
    and "distinct (row_ids games)"
    and "inj new_id" and "\<forall>k. new_id k \<noteq> []"
    and "\<forall>k. new_id k \<notin> set (row_ids games)"
    and "\<forall>g \<in> set games. \<forall>limit. map_of g ''timeLimit'' = Some limit \<longrightarrow>
           pyfloat limit \<noteq> Some NaN"
  shows "\<exists>ps'. games_loop pyfloat new_id' (fetch_existing_games db') m updated =
                 Inr ([], ps', updated, updated)"
  using assms(1,2,3,4,7,8)
proof (induction games arbitrary: n ws ps csv updated pre)
  case Nil
  then show ?case by simp
next
  case (Cons game rest)
  let ?ex0 = "fetch_existing_games db"
  let ?ex1 = "fetch_existing_games db'"
  note inj = assms(5) and nonempty = assms(6)
  from Cons.prems(6)
  have nan: "\<forall>limit. map_of game ''timeLimit'' = Some limit \<longrightarrow> pyfloat limit \<noteq> Some NaN"
    and nan_rest: "\<forall>g \<in> set rest. \<forall>limit. map_of g ''timeLimit'' = Some limit \<longrightarrow>
           pyfloat limit \<noteq> Some NaN"
    by simp_all
  from games_loop_Cons_Inr [OF Cons.prems(1)] obtain n' ws' ps0 csv' updated'
    where rest: "games_loop pyfloat new_id ?ex0 n' rest = Inr (ws', ps0, csv', updated')"
      and step: "(\<exists>k. game_step pyfloat new_id ?ex0 n game = (n', Inl (KeyError k)) \<and>
                     ws = ws' \<and> updated = updated') \<or>
                 (\<exists>w p game'. game_step pyfloat new_id ?ex0 n game =
                     (n', Inr (w, p, game')) \<and> ws = w @ ws' \<and> updated = game' # updated')"
    by blast
  have mono: "n \<le> n'"
    using step game_step_counter [of pyfloat new_id ?ex0 n game n'] by auto
  have dist: "distinct (row_ids rest)"
    using Cons.prems(4) by (rule row_ids_Cons_distinct)
  have fresh: "\<forall>k. new_id k \<notin> set (row_ids rest)"
    using Cons.prems(5) row_ids_Cons_subset [of rest game] by blast
  have pre_rest: "\<forall>x \<in> set pre. (\<forall>g \<in> set (row_ids rest). target x \<noteq> game_ref g) \<and>
                        (\<forall>k \<ge> n'. target x \<noteq> game_ref (new_id k))"
    using Cons.prems(3) row_ids_Cons_subset [of rest game] mono
    by (meson le_trans subsetD)
  from step show ?case
  proof
    assume "\<exists>k. game_step pyfloat new_id ?ex0 n game = (n', Inl (KeyError k)) \<and>
              ws = ws' \<and> updated = updated'"
    then have eq: "ws = ws'" "updated = updated'" by auto
    from Cons.IH [OF rest _ pre_rest dist fresh nan_rest] Cons.prems(2) eq
    show ?case by simp
  next
    assume "\<exists>w p game'. game_step pyfloat new_id ?ex0 n game = (n', Inr (w, p, game')) \<and>
              ws = w @ ws' \<and> updated = game' # updated'"
    then obtain w p game'
      where st: "game_step pyfloat new_id ?ex0 n game = (n', Inr (w, p, game'))"
        and ws: "ws = w @ ws'" and upd: "updated = game' # updated'" by blast
    from game_step_InrD [OF st] obtain level_id game_mode_id
      where lvl: "map_of game ''levelId'' = Some level_id"
        and gm: "map_of game ''gameModeId'' = Some game_mode_id"
        and cases: "(no_id (map_of game ''id'') \<and> n' = Suc n \<and>
            game' = setitem ''id'' (new_id n) game \<and>
            (\<exists>game_data. build_game_data pyfloat game game_mode_id level_id = Inr game_data \<and>
               w = [Batch_set (game_ref (new_id n))
                      (game_data @
                         [(''createdAt'', SERVER_TIMESTAMP), (''updatedAt'', SERVER_TIMESTAMP)]),
                    Batch_update (level_ref game_mode_id level_id)
                      [(''gameRefs'', ArrayUnion [PRef (game_ref (new_id n))])]])) \<or>
          (\<exists>game_id. map_of game ''id'' = Some game_id \<and> game_id \<noteq> [] \<and> n' = n \<and>
             game' = game \<and>
             ((\<not> truthy (?ex0 game_id) \<and> w = []) \<or>
              (\<exists>stored game_data. ?ex0 game_id = Some stored \<and> stored \<noteq> [] \<and>
                 build_game_data pyfloat game game_mode_id level_id = Inr game_data \<and>
                 ((\<not> has_game_changed stored game_data \<and> w = []) \<or>
                  (has_game_changed stored game_data \<and>
                   w = [Batch_update (game_ref game_id)
                          (game_data @ [(''updatedAt'', SERVER_TIMESTAMP)])])))))"
      by blast
    \<comment> \<open>the writes of the rows after this one do not touch the document of this row\<close>
    have rest_new: "\<forall>x \<in> set ws'. target x \<noteq> game_ref (new_id n)" if "n' = Suc n"
    proof
      fix x assume "x \<in> set ws'"
      from games_loop_targets [OF rest this] that inj fresh
      show "target x \<noteq> game_ref (new_id n)"
        by (auto simp: inj_eq)
    qed
    have rest_old: "\<forall>x \<in> set ws'. target x \<noteq> game_ref game_id"
      if "map_of game ''id'' = Some game_id" "game_id \<noteq> []" for game_id
    proof
      fix x assume "x \<in> set ws'"
      from that have ids: "row_ids (game # rest) = game_id # row_ids rest"
        by (rule row_ids_Cons_id)
      with Cons.prems(4,5) have "game_id \<notin> set (row_ids rest)" "\<forall>k. new_id k \<noteq> game_id"
        by auto
      with games_loop_targets [OF rest \<open>x \<in> set ws'\<close>]
      show "target x \<noteq> game_ref game_id" by auto
    qed
    have pre_old: "\<forall>x \<in> set pre. target x \<noteq> game_ref game_id"
      if "map_of game ''id'' = Some game_id" "game_id \<noteq> []" for game_id
      using Cons.prems(3) row_ids_Cons_id [OF that, of rest] by auto
    have pre_new: "\<forall>x \<in> set pre. target x \<noteq> game_ref (new_id n)"
      using Cons.prems(3) by auto
    \<comment> \<open>the induction hypothesis, with the writes of this row moved to the front part\<close>
    have pre_w: "\<forall>x \<in> set (pre @ w). (\<forall>g \<in> set (row_ids rest). target x \<noteq> game_ref g) \<and>
                        (\<forall>k \<ge> n'. target x \<noteq> game_ref (new_id k))"
    proof
      fix x assume x: "x \<in> set (pre @ w)"
      show "(\<forall>g \<in> set (row_ids rest). target x \<noteq> game_ref g) \<and>
            (\<forall>k \<ge> n'. target x \<noteq> game_ref (new_id k))"
      proof (cases "x \<in> set pre")
        case True
        with pre_rest show ?thesis by blast
      next
        case False
        with x have xw: "x \<in> set w" by simp
        from cases show ?thesis
        proof (elim disjE conjE exE)
          fix game_data
          assume "n' = Suc n"
            and "w = [Batch_set (game_ref (new_id n))
                      (game_data @
                         [(''createdAt'', SERVER_TIMESTAMP), (''updatedAt'', SERVER_TIMESTAMP)]),
                    Batch_update (level_ref game_mode_id level_id)
                      [(''gameRefs'', ArrayUnion [PRef (game_ref (new_id n))])]]"
          with xw fresh inj show ?thesis by (auto simp: inj_eq)
        next
          fix game_id
          assume "\<not> truthy (?ex0 game_id)" "w = []"
          with xw show ?thesis by simp
        next
          fix game_id stored game_data
          assume "\<not> has_game_changed stored game_data" "w = []"
          with xw show ?thesis by simp
        next
          fix game_id stored game_data
          assume gid: "map_of game ''id'' = Some game_id" "game_id \<noteq> []" and "n' = n"
            and "w = [Batch_update (game_ref game_id)
                        (game_data @ [(''updatedAt'', SERVER_TIMESTAMP)])]"
          with xw have t: "target x = game_ref game_id" by simp
          from gid have "row_ids (game # rest) = game_id # row_ids rest"
            by (rule row_ids_Cons_id)
          with Cons.prems(4,5) have "game_id \<notin> set (row_ids rest)" "\<forall>k. new_id k \<noteq> game_id"
            by auto
          with t show ?thesis by auto
        qed
      qed
    qed
    from Cons.prems(2) ws have "commit now db ((pre @ w) @ ws') = Some db'" by simp
    from Cons.IH [OF rest this pre_w dist fresh nan_rest] obtain ps'
      where tail: "games_loop pyfloat new_id' ?ex1 m updated' = Inr ([], ps', updated', updated')"
      by blast
    \<comment> \<open>this row in the second run\<close>
    have head: "\<exists>q. game_step pyfloat new_id' ?ex1 m game' = (m, Inr ([], q, game'))"
      using cases
    proof (elim disjE conjE exE)
      fix game_data
      assume n': "n' = Suc n" and g': "game' = setitem ''id'' (new_id n) game"
        and b: "build_game_data pyfloat game game_mode_id level_id = Inr game_data"
        and w: "w = [Batch_set (game_ref (new_id n))
                      (game_data @
                         [(''createdAt'', SERVER_TIMESTAMP), (''updatedAt'', SERVER_TIMESTAMP)]),
                    Batch_update (level_ref game_mode_id level_id)
                      [(''gameRefs'', ArrayUnion [PRef (game_ref (new_id n))])]]"
      let ?set = "Batch_set (game_ref (new_id n))
                    (game_data @
                       [(''createdAt'', SERVER_TIMESTAMP), (''updatedAt'', SERVER_TIMESTAMP)])"
      let ?post = "Batch_update (level_ref game_mode_id level_id)
                     [(''gameRefs'', ArrayUnion [PRef (game_ref (new_id n))])] # ws'"
      from Cons.prems(2) ws w have c: "commit now db (pre @ ?set # ?post) = Some db'" by simp
      have "db' (target ?set) = write_doc now (db (target ?set)) ?set"
        using pre_new rest_new [OF n'] by (intro commit_single_target [OF c]) auto
      then have "?ex1 (new_id n) =
          Some (merge_fields now [] []
                  (game_data @
                     [(''createdAt'', SERVER_TIMESTAMP), (''updatedAt'', SERVER_TIMESTAMP)]))"
        by (simp add: fetch_existing_games_def)
      with lvl gm b nan nonempty g'
        game_step_rerun_created
          [where existing_games = ?ex1 and new = "new_id n" and game = game
             and pyfloat = pyfloat and level_id = level_id and game_mode_id = game_mode_id
             and game_data = game_data and now = now and new_id = new_id' and m = m]
      show ?thesis by blast
    next
      fix game_id
      assume gid: "map_of game ''id'' = Some game_id" "game_id \<noteq> []"
        and g': "game' = game" and w: "w = []"
      from Cons.prems(2) ws w have c: "commit now db (pre @ ws') = Some db'" by simp
      have "db' (game_ref game_id) = db (game_ref game_id)"
        using pre_old [OF gid] rest_old [OF gid] by (intro commit_untouched [OF c]) auto
      then have "?ex1 game_id = ?ex0 game_id" by (simp add: fetch_existing_games_def)
      with gid st w g'
        game_step_rerun_same
          [where existing_games = ?ex0 and existing_games' = ?ex1 and game = game
             and game_id = game_id and pyfloat = pyfloat and new_id = new_id and n = n
             and n' = n' and p = p and game' = game' and new_id' = new_id' and m = m]
      show ?thesis by blast
    next
      fix game_id stored game_data
      assume gid: "map_of game ''id'' = Some game_id" "game_id \<noteq> []"
        and g': "game' = game" and w: "w = []"
      from Cons.prems(2) ws w have c: "commit now db (pre @ ws') = Some db'" by simp
      have "db' (game_ref game_id) = db (game_ref game_id)"
        using pre_old [OF gid] rest_old [OF gid] by (intro commit_untouched [OF c]) auto
      then have "?ex1 game_id = ?ex0 game_id" by (simp add: fetch_existing_games_def)
      with gid st w g'
        game_step_rerun_same
          [where existing_games = ?ex0 and existing_games' = ?ex1 and game = game
             and game_id = game_id and pyfloat = pyfloat and new_id = new_id and n = n
             and n' = n' and p = p and game' = game' and new_id' = new_id' and m = m]
      show ?thesis by blast
    next
      fix game_id stored game_data
      assume gid: "map_of game ''id'' = Some game_id" "game_id \<noteq> []"
        and g': "game' = game"
        and stored: "?ex0 game_id = Some stored"
        and b: "build_game_data pyfloat game game_mode_id level_id = Inr game_data"
        and w: "w = [Batch_update (game_ref game_id)
                       (game_data @ [(''updatedAt'', SERVER_TIMESTAMP)])]"
      let ?upd = "Batch_update (game_ref game_id)
                    (game_data @ [(''updatedAt'', SERVER_TIMESTAMP)])"
      from Cons.prems(2) ws w have c: "commit now db (pre @ ?upd # ws') = Some db'" by simp
      have "db' (target ?upd) = write_doc now (db (target ?upd)) ?upd"
        using pre_old [OF gid] rest_old [OF gid] by (intro commit_single_target [OF c]) auto
      with stored have "?ex1 game_id =
          Some (merge_fields now stored stored
                  (game_data @ [(''updatedAt'', SERVER_TIMESTAMP)]))"
        by (simp add: fetch_existing_games_def)
      with lvl gm gid b nan g'
        game_step_rerun_updated
          [where existing_games = ?ex1 and game = game and game_id = game_id
             and pyfloat = pyfloat and level_id = level_id and game_mode_id = game_mode_id
             and game_data = game_data and now = now and stored = stored
             and new_id = new_id' and m = m]
      show ?thesis by blast
    qed
    then obtain q where "game_step pyfloat new_id' ?ex1 m game' = (m, Inr ([], q, game'))"
      by blast
    with tail upd show ?case by simp
  qed
qed

lemma structure_step_targets:
  assumes "structure_step db structure = Inr (ws, ps)" and "x \<in> set ws"
  shows "target x \<noteq> game_ref g"
  using assms
  by (auto simp: structure_step_def ebind_def getitem_def Let_def
      split: option.splits if_splits sum.splits)

lemma structure_loop_targets:
  assumes "structure_loop db structure_csv = Inr (ws, ps)" and "x \<in> set ws"
  shows "target x \<noteq> game_ref g"
  using assms
proof (induction structure_csv arbitrary: ws ps)
  case Nil
  then show ?case by simp
next
  case (Cons s rest)
  from Cons.prems(1) obtain w p ws' ps' where s: "structure_step db s = Inr (w, p)"
    and r: "structure_loop db rest = Inr (ws', ps')" and ws: "ws = w @ ws'"
    by (auto split: sum.splits)
  show ?case
  proof (cases "x \<in> set w")
    case True
    from structure_step_targets [OF s True] show ?thesis .
  next
    case False
    with Cons.prems(2) ws have "x \<in> set ws'" by simp
    from Cons.IH [OF r this] show ?thesis .
  qed
qed

lemma structure_step_total:
  "structure_step db structure = Inr r \<Longrightarrow> \<exists>r'. structure_step db' structure = Inr r'"
  by (auto simp: structure_step_def ebind_def getitem_def Let_def
      split: option.splits sum.splits)

lemma structure_loop_total:
  "structure_loop db structure_csv = Inr r \<Longrightarrow> \<exists>r'. structure_loop db' structure_csv = Inr r'"
proof (induction structure_csv arbitrary: r)
  case Nil
  then show ?case by simp
next
  case (Cons s rest)
  from Cons.prems obtain a b where s: "structure_step db s = Inr a"
    and r: "structure_loop db rest = Inr b"
    by (auto split: sum.splits)
  from structure_step_total [OF s, of db'] Cons.IH [OF r] show ?case
    by (auto split: sum.splits)
qed

section \<open>The games file written and read back\<close>

lemma setitem_fresh: "k \<notin> fst ` set d \<Longrightarrow> setitem k v d = d @ [(k, v)]"
  by (induction d) auto

lemma distinct_keys_setitem: "distinct (map fst d) \<Longrightarrow> distinct (map fst (setitem k v d))"
  by (simp add: keys_setitem)

lemma foldl_setitem_fresh:
  "distinct (map fst kvs) \<Longrightarrow> fst ` set kvs \<inter> fst ` set d = {} \<Longrightarrow>
   foldl (\<lambda>d (k, v). setitem k v d) d kvs = d @ kvs"
proof (induction kvs arbitrary: d)
  case Nil
  then show ?case by simp
next
  case (Cons kv kvs)
  obtain k v where kv: "kv = (k, v)" by (cases kv)
  from Cons.prems kv have fresh: "k \<notin> fst ` set d" by auto
  from Cons.prems kv have "distinct (map fst kvs)"
    and "fst ` set kvs \<inter> fst ` set (d @ [(k, v)]) = {}" by auto
  from Cons.IH [OF this] show ?case
    by (simp add: kv setitem_fresh [OF fresh])
qed

lemma row_of_row: "distinct (map fst r) \<Longrightarrow> row_of (map fst r) (map snd r) = r"
  using foldl_setitem_fresh [of r "[]"] by (simp add: row_of_def zip_map_fst_snd)

lemma keys_foldl_setitem:
  "length cells = length fieldnames \<Longrightarrow>
   map fst (foldl (\<lambda>d (k, v). setitem k v d) d (zip fieldnames cells)) =
     foldl (\<lambda>ks k. if k \<in> set ks then ks else ks @ [k]) (map fst d) fieldnames"
proof (induction fieldnames arbitrary: cells d)
  case Nil
  then show ?case by simp
next
  case (Cons k fieldnames)
  then obtain v cells' where c: "cells = v # cells'" "length cells' = length fieldnames"
    by (cases cells) auto
  from Cons.IH [OF c(2), of "setitem k v d"] show ?case
    by (simp add: c keys_setitem)
qed

lemma distinct_foldl_setitem:
  "distinct (map fst d) \<Longrightarrow>
   distinct (map fst (foldl (\<lambda>d (k, v). setitem k v d) d kvs))"
  by (induction kvs arbitrary: d) (auto simp: distinct_keys_setitem)

lemma read_csv_keys:
  assumes "read_csv file = Some rows"
  shows "\<exists>header. distinct header \<and> (\<forall>g \<in> set rows. map fst g = header)"
proof -
  let ?header = "foldl (\<lambda>ks k. if k \<in> set ks then ks else ks @ [k]) [] (fst file)"
  have k: "map fst (row_of (fst file) cells) = ?header"
    if "length cells = length (fst file)" for cells
    using keys_foldl_setitem [OF that, of "[]"] by (simp add: row_of_def)
  from assms have rows: "rows = map (row_of (fst file)) (filter (\<lambda>cells. cells \<noteq> []) (snd file))"
    and len: "\<forall>cells \<in> set (filter (\<lambda>cells. cells \<noteq> []) (snd file)).
                length cells = length (fst file)"
    by (auto simp: read_csv_def Let_def list_all_iff split: if_splits)
  from rows len k have all: "\<forall>g \<in> set rows. map fst g = ?header" by auto
  have "distinct ?header"
  proof (cases rows)
    case Nil
    have "distinct (foldl (\<lambda>ks k. if k \<in> set ks then ks else ks @ [k]) ks fn)"
      if "distinct ks" for ks :: "string list" and fn
      using that by (induction fn arbitrary: ks) auto
    then show ?thesis by simp
  next
    case (Cons g rest)
    with rows obtain cells where "g = row_of (fst file) cells" by auto
    moreover have "distinct (map fst (row_of (fst file) cells))"
      using distinct_foldl_setitem [of "[]"] by (simp add: row_of_def)
    ultimately show ?thesis using all Cons by auto
  qed
  with all show ?thesis by blast
qed

lemma cells_of_row:
  "distinct (map fst r) \<Longrightarrow>
   map (\<lambda>k. case map_of r k of None \<Rightarrow> [] | Some v \<Rightarrow> v) (map fst r) = map snd r"
  by (induction r) (auto simp: image_iff)

lemma write_csv_read_csv:
  assumes "\<forall>g \<in> set rows. map fst g = fieldnames" and "distinct fieldnames"
    and "fieldnames \<noteq> [] \<or> rows = []"
  shows "write_csv rows fieldnames = Inr (fieldnames, map (map snd) rows)"
    and "read_csv (fieldnames, map (map snd) rows) = Some rows"
proof -
  have "k \<in> set fieldnames" if "r \<in> set rows" "k \<in> set (map fst r)" for r k
    using assms(1) that by metis
  then have "\<not> list_ex (\<lambda>r. list_ex (\<lambda>k. k \<notin> set fieldnames) (map fst r)) rows"
    unfolding list_ex_iff by blast
  moreover have "map (\<lambda>k. case map_of r k of None \<Rightarrow> [] | Some v \<Rightarrow> v) fieldnames = map snd r"
    if "r \<in> set rows" for r
  proof -
    from assms(1) that have "map fst r = fieldnames" by blast
    with assms(2) cells_of_row [of r] show ?thesis by simp
  qed
  then have "map (\<lambda>r. map (\<lambda>k. case map_of r k of None \<Rightarrow> [] | Some v \<Rightarrow> v) fieldnames) rows =
                 map (map snd) rows"
    by simp
  ultimately show "write_csv rows fieldnames = Inr (fieldnames, map (map snd) rows)"
    by (simp add: write_csv_def)
  from assms(1,3) have ne: "filter (\<lambda>cells. cells \<noteq> []) (map (map snd) rows) = map (map snd) rows"
    by (auto simp: filter_id_conv)
  have "row_of fieldnames (map snd r) = r" if "r \<in> set rows" for r
  proof -
    from assms(1) that have "map fst r = fieldnames" by blast
    with assms(2) row_of_row [of r] show ?thesis by simp
  qed
  then have "map (row_of fieldnames) (map (map snd) rows) = rows"
    by (simp add: map_idI)
  moreover from assms(1) have "\<forall>g \<in> set rows. length (map snd g) = length fieldnames"
    by (metis length_map)
  ultimately show "read_csv (fieldnames, map (map snd) rows) = Some rows"
    using ne by (simp add: read_csv_def list_all_iff)
qed


lemma build_game_data_KeyErrorD:
  "build_game_data pyfloat game game_mode_id level_id = Inl (KeyError k) \<Longrightarrow>
   map_of game ''name'' = None \<or> map_of game ''instructions'' = None \<or>
   map_of game ''timeLimit'' = None \<or> map_of game ''answerBank'' = None"
  by (auto simp: build_game_data_def ebind_def getitem_def time_limit_of_def
      split: option.splits if_splits)

lemma map_of_keys: "map fst g = header \<Longrightarrow> map_of g k = None \<longleftrightarrow> k \<notin> set header"
  by (force simp: map_of_eq_None_iff)

text \<open>The rows of a file with a column \<open>id\<close> keep their keys.\<close>

lemma games_loop_keys_id:
  assumes "games_loop pyfloat new_id existing_games n games = Inr (ws, ps, csv, updated)"
    and "\<forall>g \<in> set games. map fst g = header" and "''id'' \<in> set header"
  shows "(\<forall>g \<in> set csv. map fst g = header) \<and> (\<forall>g \<in> set updated. map fst g = header) \<and>
         length csv = length games"
  using assms(1,2)
proof (induction games arbitrary: n ws ps csv updated)
  case Nil
  then show ?case by simp
next
  case (Cons game rest)
  from Cons.prems(2) have keys: "map fst game = header"
    and keys_rest: "\<forall>g \<in> set rest. map fst g = header" by simp_all
  from games_loop_Cons_Inr [OF Cons.prems(1)] obtain n' ws' ps' csv' updated'
    where rest: "games_loop pyfloat new_id existing_games n' rest =
                   Inr (ws', ps', csv', updated')"
      and step: "(\<exists>k. game_step pyfloat new_id existing_games n game = (n', Inl (KeyError k)) \<and>
                     csv = game # csv' \<and> updated = updated') \<or>
                 (\<exists>w p game'. game_step pyfloat new_id existing_games n game =
                     (n', Inr (w, p, game')) \<and> csv = game' # csv' \<and> updated = game' # updated')"
    by blast
  note ih = Cons.IH [OF rest keys_rest]
  from step show ?case
  proof (elim disjE exE conjE)
    fix k
    assume "csv = game # csv'" "updated = updated'"
    with ih keys show ?thesis by simp
  next
    fix w p game'
    assume st: "game_step pyfloat new_id existing_games n game = (n', Inr (w, p, game'))"
      and eq: "csv = game' # csv'" "updated = game' # updated'"
    from game_step_InrD [OF st]
    have "game' = game \<or> game' = setitem ''id'' (new_id n) game" by blast
    moreover from keys assms(3) have "''id'' \<in> fst ` set game"
      by (metis list.set_map)
    ultimately have "map fst game' = header"
      using keys by (elim disjE) (simp_all add: keys_setitem)
    with ih eq show ?thesis by simp
  qed
qed

text \<open>
  The rows of a file without the column \<open>id\<close> are all new games.  When the file has
  the columns that are read by subscript, every row gets the key \<open>id\<close>; otherwise every
  row is skipped.
\<close>

lemma games_loop_keys_new:
  assumes "games_loop pyfloat new_id existing_games n games = Inr (ws, ps, csv, updated)"
    and "\<forall>g \<in> set games. map fst g = header" and "''id'' \<notin> set header"
    and "\<forall>k \<in> {''levelId'', ''gameModeId'', ''name'', ''instructions'', ''timeLimit'',
                  ''answerBank''}. k \<in> set header"
  shows "updated = csv \<and> (\<forall>g \<in> set csv. map fst g = header @ [''id'']) \<and>
         length csv = length games"
  using assms(1,2)
proof (induction games arbitrary: n ws ps csv updated)
  case Nil
  then show ?case by simp
next
  case (Cons game rest)
  from Cons.prems(2) have keys: "map fst game = header"
    and keys_rest: "\<forall>g \<in> set rest. map fst g = header" by simp_all
  from games_loop_Cons_Inr [OF Cons.prems(1)] obtain n' ws' ps' csv' updated'
    where rest: "games_loop pyfloat new_id existing_games n' rest =
                   Inr (ws', ps', csv', updated')"
      and step: "(\<exists>k. game_step pyfloat new_id existing_games n game = (n', Inl (KeyError k))) \<or>
                 (\<exists>w p game'. game_step pyfloat new_id existing_games n game =
                     (n', Inr (w, p, game')) \<and> csv = game' # csv' \<and> updated = game' # updated')"
    by blast
  note ih = Cons.IH [OF rest keys_rest]
  from keys assms(3) have noid: "map_of game ''id'' = None"
    by (simp add: map_of_keys)
  from keys assms(4) obtain level_id game_mode_id
    where lvl: "map_of game ''levelId'' = Some level_id"
      and gm: "map_of game ''gameModeId'' = Some game_mode_id"
    using map_of_keys [OF keys, of "''levelId''"] map_of_keys [OF keys, of "''gameModeId''"]
    by auto
  from keys assms(4) have present: "map_of game ''name'' \<noteq> None"
    "map_of game ''instructions'' \<noteq> None" "map_of game ''timeLimit'' \<noteq> None"
    "map_of game ''answerBank'' \<noteq> None"
    by (simp_all add: map_of_keys)
  note cr = game_step_create [OF lvl gm, of pyfloat new_id existing_games n]
  from step show ?case
  proof (elim disjE exE conjE)
    fix k
    assume "game_step pyfloat new_id existing_games n game = (n', Inl (KeyError k))"
    with cr noid have "build_game_data pyfloat game game_mode_id level_id = Inl (KeyError k)"
      by (auto simp: no_id_def split: sum.splits)
    from build_game_data_KeyErrorD [OF this] present show ?thesis by simp
  next
    fix w p game'
    assume st: "game_step pyfloat new_id existing_games n game = (n', Inr (w, p, game'))"
      and eq: "csv = game' # csv'" "updated = game' # updated'"
    from game_step_InrD [OF st] noid
    have "game' = setitem ''id'' (new_id n) game" by auto
    moreover from keys assms(3) have "''id'' \<notin> fst ` set game"
      by (metis list.set_map)
    ultimately have "map fst game' = header @ [''id'']"
      using keys by (simp add: keys_setitem)
    with ih eq show ?thesis by simp
  qed
qed

lemma games_loop_keys_skipped:
  assumes "games_loop pyfloat new_id existing_games n games = Inr (ws, ps, csv, updated)"
    and "\<forall>g \<in> set games. map fst g = header" and "''id'' \<notin> set header"
    and "\<not> (\<forall>k \<in> {''levelId'', ''gameModeId'', ''name'', ''instructions'', ''timeLimit'',
                  ''answerBank''}. k \<in> set header)"
  shows "updated = [] \<and> csv = games"
  using assms(1,2)
proof (induction games arbitrary: n ws ps csv updated)
  case Nil
  then show ?case by simp
next
  case (Cons game rest)
  from Cons.prems(2) have keys: "map fst game = header"
    and keys_rest: "\<forall>g \<in> set rest. map fst g = header" by simp_all
  from games_loop_Cons_Inr [OF Cons.prems(1)] obtain n' ws' ps' csv' updated'
    where rest: "games_loop pyfloat new_id existing_games n' rest =
                   Inr (ws', ps', csv', updated')"
      and step: "(\<exists>k. csv = game # csv' \<and> updated = updated') \<or>
                 (\<exists>w p game'. game_step pyfloat new_id existing_games n game =
                     (n', Inr (w, p, game')))"
    by blast
  note ih = Cons.IH [OF rest keys_rest]
  from keys assms(3) have noid: "map_of game ''id'' = None"
    by (simp add: map_of_keys)
  from step show ?case
  proof (elim disjE exE conjE)
    assume "csv = game # csv'" "updated = updated'"
    with ih show ?thesis by simp
  next
    fix w p game'
    assume st: "game_step pyfloat new_id existing_games n game = (n', Inr (w, p, game'))"
    from game_step_InrD [OF st] noid obtain level_id game_mode_id game_data
      where "map_of game ''levelId'' = Some level_id"
        and "map_of game ''gameModeId'' = Some game_mode_id"
        and "build_game_data pyfloat game game_mode_id level_id = Inr game_data"
      by auto
    with build_game_data_InrD [of pyfloat game game_mode_id level_id game_data]
    have "map_of game ''levelId'' \<noteq> None" "map_of game ''gameModeId'' \<noteq> None"
      "map_of game ''name'' \<noteq> None" "map_of game ''instructions'' \<noteq> None"
      "map_of game ''timeLimit'' \<noteq> None" "map_of game ''answerBank'' \<noteq> None"
      by auto
    with keys assms(4) show ?thesis
      by (simp add: map_of_keys)
  qed
qed

text \<open>
  The writer gets the rows of \<^verbatim>\<open>updated_games_csv\<close> with the keys of the first row of
  \<^verbatim>\<open>games_csv\<close>.  For the rows of a file the writer does not raise, and the reader
  gets from the file written the rows that were handed to the writer.
\<close>

lemma games_loop_written_and_read:
  assumes "games_loop pyfloat new_id existing_games n games = Inr (ws, ps, csv, updated)"
    and "\<forall>g \<in> set games. map fst g = header" and "distinct header" and "games \<noteq> []"
  shows "\<exists>file. write_csv updated (map fst (hd csv)) = Inr file \<and> read_csv file = Some updated"
proof -
  let ?required = "\<forall>k \<in> {''levelId'', ''gameModeId'', ''name'', ''instructions'',
                          ''timeLimit'', ''answerBank''}. k \<in> set header"
  have "\<exists>fieldnames. map fst (hd csv) = fieldnames \<and> distinct fieldnames \<and>
          (\<forall>g \<in> set updated. map fst g = fieldnames) \<and> (fieldnames \<noteq> [] \<or> updated = [])"
  proof (cases "''id'' \<in> set header")
    case True
    from games_loop_keys_id [OF assms(1,2) True] assms(4)
    have "\<forall>g \<in> set csv. map fst g = header" "\<forall>g \<in> set updated. map fst g = header"
      "csv \<noteq> []" by auto
    then have "map fst (hd csv) = header" by simp
    moreover from True have "header \<noteq> []" by auto
    ultimately show ?thesis
      using assms(3) \<open>\<forall>g \<in> set updated. map fst g = header\<close> by simp
  next
    case False
    show ?thesis
    proof (cases ?required)
      case True
      from games_loop_keys_new [OF assms(1,2) False True] assms(4)
      have "updated = csv" "\<forall>g \<in> set csv. map fst g = header @ [''id'']" "csv \<noteq> []"
        by auto
      then have "map fst (hd csv) = header @ [''id'']" by simp
      then show ?thesis
        using assms(3) False \<open>updated = csv\<close> \<open>\<forall>g \<in> set csv. map fst g = header @ [''id'']\<close>
        by simp
    next
      case nr: False
      from games_loop_keys_skipped [OF assms(1,2) False nr]
      have "updated = []" "csv = games" by simp_all
      moreover from assms(2,4) \<open>csv = games\<close> have "map fst (hd csv) = header" by simp
      ultimately show ?thesis using assms(3) by simp
    qed
  qed
  then obtain fieldnames where fn: "map fst (hd csv) = fieldnames" "distinct fieldnames"
    "\<forall>g \<in> set updated. map fst g = fieldnames" "fieldnames \<noteq> [] \<or> updated = []"
    by blast
  from write_csv_read_csv [OF fn(3,2,4)] fn(1) show ?thesis by simp
qed

section \<open>The commit of the structure pass\<close>

lemma apply_write_keeps:
  "apply_write now s w = Some s' \<Longrightarrow> s p \<noteq> None \<Longrightarrow> s' p \<noteq> None"
  by (auto simp: apply_write_def split: option.splits)

lemma commit_total:
  "\<forall>w \<in> set ws. s (target w) \<noteq> None \<or> (\<exists>d. w = Batch_set (target w) d) \<Longrightarrow>
   \<exists>s'. commit now s ws = Some s'"
proof (induction ws arbitrary: s)
  case Nil
  then show ?case by simp
next
  case (Cons w ws)
  from Cons.prems have "s (target w) \<noteq> None \<or> (\<exists>d. w = Batch_set (target w) d)" by simp
  then obtain s1 where s1: "apply_write now s w = Some s1"
    by (cases w; cases "s (target w)") (auto simp: apply_write_def)
  have "\<forall>x \<in> set ws. s1 (target x) \<noteq> None \<or> (\<exists>d. x = Batch_set (target x) d)"
    using Cons.prems apply_write_keeps [OF s1] by auto
  from Cons.IH [OF this] s1 show ?case by simp
qed

lemma structure_step_writes:
  assumes "structure_step db structure = Inr (ws, ps)" and "w \<in> set ws"
  shows "db (target w) \<noteq> None \<or> (\<exists>d. w = Batch_set (target w) d)"
  using assms
  by (auto simp: structure_step_def ebind_def getitem_def Let_def
      split: option.splits if_splits sum.splits)

lemma structure_loop_writes:
  assumes "structure_loop db structure_csv = Inr (ws, ps)" and "w \<in> set ws"
  shows "db (target w) \<noteq> None \<or> (\<exists>d. w = Batch_set (target w) d)"
  using assms
proof (induction structure_csv arbitrary: ws ps)
  case Nil
  then show ?case by simp
next
  case (Cons s rest)
  from Cons.prems(1) obtain w1 p ws' ps' where s: "structure_step db s = Inr (w1, p)"
    and r: "structure_loop db rest = Inr (ws', ps')" and ws: "ws = w1 @ ws'"
    by (auto split: sum.splits)
  show ?case
  proof (cases "w \<in> set w1")
    case True
    from structure_step_writes [OF s True] show ?thesis .
  next
    case False
    with Cons.prems(2) ws have "w \<in> set ws'" by simp
    from Cons.IH [OF r this] show ?thesis .
  qed
qed

lemma game_writes_empty:
  "\<forall>x \<in> set ws. \<forall>g. target x \<noteq> game_ref g \<Longrightarrow> game_writes ws = []"
  by (auto simp: game_writes_def filter_empty_conv game_ref_def split: list.splits)

section \<open>The parts of a run\<close>

lemma upload_games_from_csv_InrD:
  assumes "upload_games_from_csv pyfloat new_id now db games_csv structure_csv = Inr r"
    and "games_file r = Some file"
  shows "\<exists>ws ps csv updated.
     games_csv \<noteq> [] \<and> structure_csv \<noteq> [] \<and>
     reconcile pyfloat new_id db games_csv structure_csv = Inr (ws, ps, csv, updated) \<and>
     commit now db ws = Some (db_after r) \<and> batch r = ws \<and>
     (case write_csv updated (map fst (hd csv)) of
        Inl e \<Rightarrow> raised r = Some e
      | Inr file' \<Rightarrow> raised r = None \<and> file = file')"
proof -
  from assms have ne: "games_csv \<noteq> []" "structure_csv \<noteq> []"
    by (auto simp: upload_games_from_csv_def split: if_splits)
  with assms(1) obtain ws ps csv updated
    where rec: "reconcile pyfloat new_id db games_csv structure_csv = Inr (ws, ps, csv, updated)"
    by (cases "reconcile pyfloat new_id db games_csv structure_csv")
       (auto simp: upload_games_from_csv_def ebind_def)
  with assms(1) ne obtain db' where c: "commit now db ws = Some db'"
    by (cases "commit now db ws") (auto simp: upload_games_from_csv_def ebind_def)
  have "commit now db ws = Some (db_after r) \<and> batch r = ws \<and>
     (case write_csv updated (map fst (hd csv)) of
        Inl e \<Rightarrow> raised r = Some e
      | Inr file' \<Rightarrow> raised r = None \<and> file = file')"
    using assms ne rec c
    by (auto simp: upload_games_from_csv_def ebind_def split: sum.splits)
  with ne rec show ?thesis by blast
qed

lemma upload_games_from_csv_InrI:
  assumes "games_csv \<noteq> []" and "structure_csv \<noteq> []"
    and "reconcile pyfloat new_id db games_csv structure_csv = Inr (ws, ps, csv, updated)"
    and "commit now db ws = Some db'"
  shows "\<exists>r. upload_games_from_csv pyfloat new_id now db games_csv structure_csv = Inr r \<and>
              batch r = ws"
  using assms
  by (simp add: upload_games_from_csv_def ebind_def split: sum.splits)

lemma reconcile_InrD:
  assumes "reconcile pyfloat new_id db games_csv structure_csv = Inr (ws, ps, csv, updated)"
  shows "\<exists>ws1 ps1 ws2 ps2.
     structure_loop db structure_csv = Inr (ws1, ps1) \<and>
     games_loop pyfloat new_id (fetch_existing_games db) 0 games_csv =
       Inr (ws2, ps2, csv, updated) \<and>
     ws = ws1 @ ws2"
  using assms by (auto simp: reconcile_def ebind_def split: sum.splits)

section \<open>Evaluating the sample inputs\<close>

lemma sample_float_30: "sample_float ''30'' = Some (Finite 30)"
  by (simp add: sample_float_def is_decimal_def int_of_digits_def)

lemmas sample_eval =
  sample_db_def stored_g1_def game_ref_def level_ref_def game_mode_ref_def
  fetch_existing_games_def build_game_data_def getitem_def ebind_def time_limit_of_def
  answer_bank_of_def row_get_def strip_def is_space_def sample_float_30
  has_game_changed_def keys_to_check_def doc_get_def py_ne_def float_eq_def truthy_def
  no_id_def game_step_def Let_def

lemma nan_float_nan: "nan_float ''nan'' = Some NaN"
  by (simp add: nan_float_def)

lemmas run_eval =
  upload_games_from_csv_def reconcile_def file_of_def batch_of_def stored_field_def db_of_def
  read_csv_def row_of_def rows_after_def sample_structure_def structure_step_def sug_time_limit_def
  int_of_isdigit_def isdigit_def is_digit_def is_decimal_def int_of_digits_def
  apply_write_def resolve_plain write_csv_def sample_id_def resolve_def array_field_def

lemma inj_sample_id: "inj sample_id"
  by (simp add: inj_def sample_id_def replicate_eq_replicate)

section \<open>Claims\<close>

subsection \<open>C1\<close>

text \<open>
  C1.  A stored game document without fields is found in the snapshot, and the data
  built from the row differs from it on a key of the diff list, yet the step adds no
  write and reports the id as not found: the test \<^verbatim>\<open>if existing_game\<close> is false for
  an empty dict.
\<close>

theorem blank_document_treated_as_not_found:
  "fetch_existing_games sample_db ''blank'' = Some [] \<and>
   build_game_data sample_float row_blank ''gm1'' ''lvl1'' = Inr find_a_data \<and>
   has_game_changed [] find_a_data \<and>
   game_step sample_float sample_id (fetch_existing_games sample_db) 0 row_blank =
     (0, Inr ([], [Not_found_skipping ''blank''], row_blank))"
  by (simp add: sample_eval row_blank_def find_a_data_def)

subsection \<open>C2\<close>

text \<open>
  C2.  As specified, every game row without an id creates a game and links it to its
  level.  A games file without the column \<open>name\<close> gives rows that lack the key: such a
  row with no id is reported and skipped by the handler of the loop, so it adds no write,
  gets no id and is left out of the rows written back.
\<close>

theorem row_without_id_and_name_creates_nothing:
  "no_id (map_of row_no_name ''id'') \<and>
   games_loop sample_float sample_id (fetch_existing_games sample_db) 0 [row_no_name] =
     Inr ([], [Missing_field ''name'' row_no_name], [row_no_name], [])"
  by (simp add: sample_eval row_no_name_def)

text \<open>
  C2, amended.  A game row with no id that has its level id, game mode id, name,
  instructions, time limit and answer bank, the time limit empty or accepted by
  \<^verbatim>\<open>float\<close>, adds exactly two writes: the new game document with both timestamps,
  and one array union of its reference into gameRefs of the owning level.  The new id
  is put into the row.  The union appends the reference when the array lacks it and
  changes nothing otherwise, so an array without duplicates stays so.  Once the row
  carries the new id, whatever it adds to a batch is a write to that game document
  without a gameRefs field.
\<close>

theorem row_without_id_creates_and_links_once:
  assumes "no_id (map_of game ''id'')"
    and "map_of game ''levelId'' = Some level_id"
    and "map_of game ''gameModeId'' = Some game_mode_id"
    and "map_of game ''name'' = Some name"
    and "map_of game ''instructions'' = Some instructions"
    and "map_of game ''timeLimit'' = Some limit"
    and "time_limit_of pyfloat limit = Inr time_limit"
    and "map_of game ''answerBank'' = Some answer_bank"
  shows "game_step pyfloat new_id existing_games n game =
      (Suc n,
       Inr ([Batch_set (game_ref (new_id n))
               [(''name'', PStr name),
                (''description'', row_get game ''description''),
                (''instructions'', PStr instructions),
                (''timeLimit'', time_limit),
                (''gameModeId'', PStr game_mode_id),
                (''levelId'', PStr level_id),
                (''letterPosition'', row_get game ''letterPosition''),
                (''targetLetter'', row_get game ''targetLetter''),
                (''answerBank'', answer_bank_of answer_bank),
                (''createdAt'', SERVER_TIMESTAMP),
                (''updatedAt'', SERVER_TIMESTAMP)],
             Batch_update (level_ref game_mode_id level_id)
               [(''gameRefs'', ArrayUnion [PRef (game_ref (new_id n))])]],
            [New_game (new_id n)],
            setitem ''id'' (new_id n) game))
    \<and> map_of (setitem ''id'' (new_id n) game) ''id'' = Some (new_id n)
    \<and> (\<forall>now level. \<exists>level'.
          write_doc now (Some level)
            (Batch_update (level_ref game_mode_id level_id)
               [(''gameRefs'', ArrayUnion [PRef (game_ref (new_id n))])]) = Some level'
          \<and> array_field level' ''gameRefs'' =
              (if PRef (game_ref (new_id n)) \<in> set (array_field level ''gameRefs'')
               then array_field level ''gameRefs''
               else array_field level ''gameRefs'' @ [PRef (game_ref (new_id n))])
          \<and> (distinct (array_field level ''gameRefs'') \<longrightarrow>
               distinct (array_field level' ''gameRefs'')))
    \<and> (new_id n \<noteq> [] \<longrightarrow>
         (\<forall>existing_games' m m' ws ps game' w.
            game_step pyfloat new_id existing_games' m (setitem ''id'' (new_id n) game) =
              (m', Inr (ws, ps, game')) \<longrightarrow>
            w \<in> set ws \<longrightarrow>
            target w = game_ref (new_id n) \<and> ''gameRefs'' \<notin> fst ` set (payload w)))"
proof (intro conjI allI impI)
  let ?game_data = "[(''name'', PStr name),
                (''description'', row_get game ''description''),
                (''instructions'', PStr instructions),
                (''timeLimit'', time_limit),
                (''gameModeId'', PStr game_mode_id),
                (''levelId'', PStr level_id),
                (''letterPosition'', row_get game ''letterPosition''),
                (''targetLetter'', row_get game ''targetLetter''),
                (''answerBank'', answer_bank_of answer_bank)]"
  have b: "build_game_data pyfloat game game_mode_id level_id = Inr ?game_data"
    by (rule build_game_data_Inr [OF assms(4,5,6,7,8)])
  show "game_step pyfloat new_id existing_games n game =
      (Suc n,
       Inr ([Batch_set (game_ref (new_id n))
               [(''name'', PStr name),
                (''description'', row_get game ''description''),
                (''instructions'', PStr instructions),
                (''timeLimit'', time_limit),
                (''gameModeId'', PStr game_mode_id),
                (''levelId'', PStr level_id),
                (''letterPosition'', row_get game ''letterPosition''),
                (''targetLetter'', row_get game ''targetLetter''),
                (''answerBank'', answer_bank_of answer_bank),
                (''createdAt'', SERVER_TIMESTAMP),
                (''updatedAt'', SERVER_TIMESTAMP)],
             Batch_update (level_ref game_mode_id level_id)
               [(''gameRefs'', ArrayUnion [PRef (game_ref (new_id n))])]],
            [New_game (new_id n)],
            setitem ''id'' (new_id n) game))"
    using game_step_create [OF assms(2,3,1), of pyfloat new_id existing_games n] b
    by simp
next
  show "map_of (setitem ''id'' (new_id n) game) ''id'' = Some (new_id n)"
    by (simp add: map_of_setitem)
next
  fix now level
  show "\<exists>level'.
          write_doc now (Some level)
            (Batch_update (level_ref game_mode_id level_id)
               [(''gameRefs'', ArrayUnion [PRef (game_ref (new_id n))])]) = Some level'
          \<and> array_field level' ''gameRefs'' =
              (if PRef (game_ref (new_id n)) \<in> set (array_field level ''gameRefs'')
               then array_field level ''gameRefs''
               else array_field level ''gameRefs'' @ [PRef (game_ref (new_id n))])
          \<and> (distinct (array_field level ''gameRefs'') \<longrightarrow>
               distinct (array_field level' ''gameRefs''))"
    by (simp add: write_doc_array_union array_field_setitem del: write_doc.simps)
next
  fix existing_games' m m' ws ps game' w
  assume "new_id n \<noteq> []"
    and "game_step pyfloat new_id existing_games' m (setitem ''id'' (new_id n) game) =
              (m', Inr (ws, ps, game'))"
    and "w \<in> set ws"
  then show "target w = game_ref (new_id n)" and "''gameRefs'' \<notin> fst ` set (payload w)"
    using game_step_with_id_targets
      [of "setitem ''id'' (new_id n) game" "new_id n" pyfloat new_id existing_games' m m' ws ps
        game' w]
    by (simp_all add: map_of_setitem)
qed

theorem row_without_id_creates_and_links_once_witness:
  "no_id (map_of find_a ''id'') \<and>
   map_of find_a ''levelId'' = Some ''lvl1'' \<and>
   map_of find_a ''gameModeId'' = Some ''gm1'' \<and>
   map_of find_a ''name'' = Some ''Find A'' \<and>
   map_of find_a ''instructions'' = Some ''tap A'' \<and>
   map_of find_a ''timeLimit'' = Some ''30'' \<and>
   time_limit_of sample_float ''30'' = Inr (PFloat (Finite 30)) \<and>
   map_of find_a ''answerBank'' = Some ''A,a'' \<and>
   sample_id 0 \<noteq> [] \<and>
   fst (game_step sample_float sample_id (\<lambda>_. None) 0 find_a) = 1 \<and>
   map_of (setitem ''id'' (sample_id 0) find_a) ''id'' = Some ''g''"
  using row_without_id_creates_and_links_once
    [where game = find_a and level_id = "''lvl1''" and game_mode_id = "''gm1''"
       and name = "''Find A''" and instructions = "''tap A''" and limit = "''30''"
       and time_limit = "PFloat (Finite 30)" and answer_bank = "''A,a''"
       and pyfloat = sample_float and new_id = sample_id
       and n = 0 and existing_games = "\<lambda>_. None"]
  by (simp add: sample_eval find_a_def sample_id_def)

subsection \<open>C3\<close>

text \<open>
  C3.  As specified, a second run on unchanged input updates no game.  With two rows
  of the games file that carry the same id, the first run leaves the document as the
  first of them has it (and the file as it was), so the second run finds the second one
  changed and updates it.  With a time limit that parses to NaN, the game created by
  the first run is updated by the second, since NaN differs from itself.
\<close>

theorem second_run_updates_again:
  "rows_after [row_g1_edited, row_g1] (first_run sample_float [row_g1_edited, row_g1]) =
     Some [row_g1_edited, row_g1] \<and>
   map_option game_writes_of (second_run sample_float [row_g1_edited, row_g1]) =
     Some [Batch_update (game_ref ''g1'')
        [(''name'', PStr ''Find A''), (''description'', PNone),
         (''instructions'', PStr ''tap A''), (''timeLimit'', PFloat (Finite 30)),
         (''gameModeId'', PStr ''gm1''), (''levelId'', PStr ''lvl1''),
         (''letterPosition'', PNone), (''targetLetter'', PNone),
         (''answerBank'', PList [PStr ''A'', PStr ''a'']),
         (''updatedAt'', SERVER_TIMESTAMP)]] \<and>
   map_option game_writes_of (second_run nan_float [row_nan]) =
     Some [Batch_update (game_ref ''g'')
        [(''name'', PStr ''Find N''), (''description'', PNone),
         (''instructions'', PStr ''tap N''), (''timeLimit'', PFloat NaN),
         (''gameModeId'', PStr ''gm1''), (''levelId'', PStr ''lvl1''),
         (''letterPosition'', PNone), (''targetLetter'', PNone),
         (''answerBank'', PNone),
         (''updatedAt'', SERVER_TIMESTAMP)]]"
proof (intro conjI)
  show "rows_after [row_g1_edited, row_g1] (first_run sample_float [row_g1_edited, row_g1]) =
     Some [row_g1_edited, row_g1]"
    by (simp add: first_run_def run_eval sample_eval row_g1_def row_g1_edited_def)
  show "map_option game_writes_of (second_run sample_float [row_g1_edited, row_g1]) =
     Some [Batch_update (game_ref ''g1'')
        [(''name'', PStr ''Find A''), (''description'', PNone),
         (''instructions'', PStr ''tap A''), (''timeLimit'', PFloat (Finite 30)),
         (''gameModeId'', PStr ''gm1''), (''levelId'', PStr ''lvl1''),
         (''letterPosition'', PNone), (''targetLetter'', PNone),
         (''answerBank'', PList [PStr ''A'', PStr ''a'']),
         (''updatedAt'', SERVER_TIMESTAMP)]]"
    by (simp add: second_run_def first_run_def run_eval sample_eval row_g1_def
        row_g1_edited_def game_writes_of_def game_writes_def)
  show "map_option game_writes_of (second_run nan_float [row_nan]) =
     Some [Batch_update (game_ref ''g'')
        [(''name'', PStr ''Find N''), (''description'', PNone),
         (''instructions'', PStr ''tap N''), (''timeLimit'', PFloat NaN),
         (''gameModeId'', PStr ''gm1''), (''levelId'', PStr ''lvl1''),
         (''letterPosition'', PNone), (''targetLetter'', PNone),
         (''answerBank'', PNone),
         (''updatedAt'', SERVER_TIMESTAMP)]]"
    by (simp add: second_run_def first_run_def run_eval sample_eval row_nan_def
        game_writes_of_def game_writes_def nan_float_nan)
qed

text \<open>
  C3, amended.  Let the rows of the games file be read from a file whose lines have
  one cell per column, and let a first run over them reach its commit and rewrite the
  file.  If the non-empty ids of the rows are pairwise distinct, the ids the client
  generates are non-empty, pairwise distinct and not among them, and no time limit of
  the file parses to NaN, then the writer does not raise, and a second run, on the
  store the first commit left, the rows read back from the file the first run wrote and
  the same structure rows, returns with a batch that holds no write to a game document.
\<close>

theorem second_run_adds_no_game_write:
  assumes "read_csv games_file_before = Some games_csv"
    and "upload_games_from_csv pyfloat new_id now db games_csv structure_csv = Inr r"
    and "games_file r = Some file"
    and "distinct (row_ids games_csv)"
    and "inj new_id" and "\<forall>k. new_id k \<noteq> []"
    and "\<forall>k. new_id k \<notin> set (row_ids games_csv)"
    and "\<forall>g \<in> set games_csv. \<forall>limit. map_of g ''timeLimit'' = Some limit \<longrightarrow>
           pyfloat limit \<noteq> Some NaN"
  shows "raised r = None \<and>
         (\<exists>rows r'. read_csv file = Some rows \<and>
            upload_games_from_csv pyfloat new_id' now' (db_after r) rows structure_csv = Inr r' \<and>
            game_writes (batch r') = [])"
proof -
  from read_csv_keys [OF assms(1)] obtain header
    where header: "distinct header" "\<forall>g \<in> set games_csv. map fst g = header"
    by blast
  from upload_games_from_csv_InrD [OF assms(2,3)] obtain ws ps csv updated
    where ne: "games_csv \<noteq> []" "structure_csv \<noteq> []"
      and rec: "reconcile pyfloat new_id db games_csv structure_csv =
                  Inr (ws, ps, csv, updated)"
      and c: "commit now db ws = Some (db_after r)"
      and wr: "(case write_csv updated (map fst (hd csv)) of
                  Inl e \<Rightarrow> raised r = Some e
                | Inr file' \<Rightarrow> raised r = None \<and> file = file')"
    by blast
  from reconcile_InrD [OF rec] obtain ws1 ps1 ws2 ps2
    where s1: "structure_loop db structure_csv = Inr (ws1, ps1)"
      and g1: "games_loop pyfloat new_id (fetch_existing_games db) 0 games_csv =
                 Inr (ws2, ps2, csv, updated)"
      and ws: "ws = ws1 @ ws2"
    by blast
  \<comment> \<open>the file written holds the rows handed to the writer\<close>
  from games_loop_written_and_read [OF g1 header(2,1) ne(1)] obtain file'
    where "write_csv updated (map fst (hd csv)) = Inr file'"
      and "read_csv file' = Some updated"
    by blast
  with wr have nr: "raised r = None" and rd: "read_csv file = Some updated"
    by simp_all
  \<comment> \<open>the loops of the second run\<close>
  have pre: "\<forall>x \<in> set ws1. (\<forall>g \<in> set (row_ids games_csv). target x \<noteq> game_ref g) \<and>
                        (\<forall>k \<ge> 0. target x \<noteq> game_ref (new_id k))"
    using structure_loop_targets [OF s1] by blast
  from c ws have c1: "commit now db (ws1 @ ws2) = Some (db_after r)" by simp
  from second_pass [OF g1 c1 pre assms(4-8), of new_id' 0] obtain ps2'
    where g2: "games_loop pyfloat new_id' (fetch_existing_games (db_after r)) 0 updated =
                 Inr ([], ps2', updated, updated)"
    by blast
  from structure_loop_total [OF s1, of "db_after r"] obtain ws1' ps1'
    where s2: "structure_loop (db_after r) structure_csv = Inr (ws1', ps1')"
    by (cases rule: exE) auto
  from s2 g2 have rec2: "reconcile pyfloat new_id' (db_after r) updated structure_csv =
                     Inr (ws1', ps1' @ ps2', updated, updated)"
    by (simp add: reconcile_def ebind_def)
  have no_game: "game_writes ws1' = []"
    using structure_loop_targets [OF s2] by (intro game_writes_empty) blast
  \<comment> \<open>its commit\<close>
  have "\<forall>w \<in> set ws1'. db_after r (target w) \<noteq> None \<or> (\<exists>d. w = Batch_set (target w) d)"
    using structure_loop_writes [OF s2] by blast
  from commit_total [OF this, of now'] obtain db''
    where c2: "commit now' (db_after r) ws1' = Some db''"
    by blast
  have "\<exists>r'. upload_games_from_csv pyfloat new_id' now' (db_after r) updated structure_csv =
                Inr r' \<and> game_writes (batch r') = []"
  proof (cases "updated = []")
    case True
    then show ?thesis
      by (simp add: upload_games_from_csv_def game_writes_def)
  next
    case False
    from upload_games_from_csv_InrI [OF False ne(2) rec2 c2] no_game show ?thesis
      by auto
  qed
  with nr rd show ?thesis by blast
qed

theorem second_run_adds_no_game_write_witness:
  "read_csv find_a_file = Some [find_a] \<and>
   distinct (row_ids [find_a]) \<and> inj sample_id \<and> sample_id 0 \<noteq> [] \<and>
   row_ids [find_a] = [] \<and> sample_float ''30'' \<noteq> Some NaN \<and>
   (\<exists>r file r'.
      upload_games_from_csv sample_float sample_id 7 sample_db [find_a] sample_structure =
        Inr r \<and>
      games_file r = Some file \<and> raised r = None \<and>
      read_csv file = Some [find_a_g] \<and>
      upload_games_from_csv sample_float sample_id 8 (db_after r) [find_a_g]
        sample_structure = Inr r' \<and>
      game_writes (batch r') = [])"
proof -
  have h1: "read_csv find_a_file = Some [find_a]"
    by (simp add: read_csv_def row_of_def find_a_file_def find_a_def)
  have "\<exists>r. upload_games_from_csv sample_float sample_id 7 sample_db [find_a]
               sample_structure = Inr r \<and>
             games_file r = Some (map fst find_a_g, [map snd find_a_g])"
    by (simp add: run_eval sample_eval find_a_def find_a_g_def)
  then obtain r
    where h2: "upload_games_from_csv sample_float sample_id 7 sample_db [find_a]
                 sample_structure = Inr r"
      and h3: "games_file r = Some (map fst find_a_g, [map snd find_a_g])"
    by blast
  have h4: "row_ids [find_a] = []"
    by (simp add: row_ids_def find_a_def)
  have h6: "\<forall>k. sample_id k \<noteq> []"
    by (simp add: sample_id_def)
  from h4 have h5: "distinct (row_ids [find_a])"
    and h7: "\<forall>k. sample_id k \<notin> set (row_ids [find_a])"
    by simp_all
  have h8: "\<forall>g \<in> set [find_a]. \<forall>limit. map_of g ''timeLimit'' = Some limit \<longrightarrow>
              sample_float limit \<noteq> Some NaN"
    by (simp add: sample_float_def)
  have h9: "read_csv (map fst find_a_g, [map snd find_a_g]) = Some [find_a_g]"
    by (simp add: read_csv_def row_of_def find_a_g_def)
  from second_run_adds_no_game_write [OF h1 h2 h3 h5 inj_sample_id h6 h7 h8, of sample_id 8] h9
  have "raised r = None \<and>
        (\<exists>r'. upload_games_from_csv sample_float sample_id 8 (db_after r) [find_a_g]
                 sample_structure = Inr r' \<and>
              game_writes (batch r') = [])"
    by auto
  with h2 h3 h9 have concl: "\<exists>r file r'.
      upload_games_from_csv sample_float sample_id 7 sample_db [find_a] sample_structure =
        Inr r \<and>
      games_file r = Some file \<and> raised r = None \<and>
      read_csv file = Some [find_a_g] \<and>
      upload_games_from_csv sample_float sample_id 8 (db_after r) [find_a_g]
        sample_structure = Inr r' \<and>
      game_writes (batch r') = []"
    by blast
  from h6 have h6': "sample_id 0 \<noteq> []" by simp
  have h8': "sample_float ''30'' \<noteq> Some NaN" by (simp add: sample_float_def)
  from h1 h5 inj_sample_id h6' h4 h8' concl show ?thesis by (intro conjI)
qed

subsection \<open>C4\<close>

text \<open>
  C4.  As specified, a structure row that lacks a required field is skipped with a
  warning and the run goes on.  The loop over the structure rows has no handler for the
  \<open>KeyError\<close>, while the loop over the game rows has one: for a structure file
  without the column \<open>levelName\<close> the first row ends the run with the exception.
  Nothing is committed and the games file is not rewritten.
\<close>

theorem structure_row_missing_field_aborts:
  "upload_games_from_csv sample_float sample_id 7 sample_db [find_a] bad_structure =
     Inl (KeyError ''levelName'')"
  by (simp add: upload_games_from_csv_def reconcile_def bad_structure_def structure_step_def ebind_def
      getitem_def)

text \<open>
  The loop over the game rows, for comparison.  A game row that lacks one of the fields
  the loop reads by subscript, and whose time limit (if any) can be parsed, adds no
  write and is reported, and the loop goes on with the rows after it: its result is that
  of the remaining rows with the warning in front.  The warning is the missing one, and
  the row is left out of the rows written back, unless the row carries an id for which
  no document with fields is stored; then the warning is the not-found one and the row
  is kept.
\<close>

lemma game_row_missing_field_is_skipped:
  assumes "\<exists>k \<in> set [''levelId'', ''gameModeId'', ''name'', ''instructions'', ''timeLimit'',
                        ''answerBank'']. map_of game k = None"
    and "\<forall>limit. map_of game ''timeLimit'' = Some limit \<longrightarrow> limit \<noteq> [] \<longrightarrow>
           pyfloat limit \<noteq> None"
  shows "\<exists>n' warning kept.
     games_loop pyfloat new_id existing_games n (game # rest) =
       (case games_loop pyfloat new_id existing_games n' rest of
          Inl e \<Rightarrow> Inl e
        | Inr (ws, ps, csv, updated) \<Rightarrow> Inr (ws, warning # ps, game # csv, kept @ updated))
     \<and> ((\<exists>k. warning = Missing_field k game \<and> kept = []) \<or>
         (\<exists>game_id. map_of game ''id'' = Some game_id \<and> \<not> truthy (existing_games game_id) \<and>
            warning = Not_found_skipping game_id \<and> kept = [game]))"
proof -
  have skip: "\<exists>n' warning kept.
     games_loop pyfloat new_id existing_games n (game # rest) =
       (case games_loop pyfloat new_id existing_games n' rest of
          Inl e \<Rightarrow> Inl e
        | Inr (ws, ps, csv, updated) \<Rightarrow> Inr (ws, warning # ps, game # csv, kept @ updated))
     \<and> ((\<exists>k. warning = Missing_field k game \<and> kept = []) \<or>
         (\<exists>game_id. map_of game ''id'' = Some game_id \<and> \<not> truthy (existing_games game_id) \<and>
            warning = Not_found_skipping game_id \<and> kept = [game]))"
    if "game_step pyfloat new_id existing_games n game = (n', Inl (KeyError k))" for n' k
    using that
    by (intro exI [of _ n'] exI [of _ "Missing_field k game"] exI [of _ "[]"])
       (simp split: sum.splits)
  show ?thesis
  proof (cases "map_of game ''levelId''")
    case None
    from skip [OF game_step_no_level [OF None]] show ?thesis .
  next
    case lvl: (Some level_id)
    show ?thesis
    proof (cases "map_of game ''gameModeId''")
      case None
      from skip [OF game_step_no_mode [OF lvl None]] show ?thesis .
    next
      case gm: (Some game_mode_id)
      from assms(1) lvl gm
      have "map_of game ''name'' = None \<or> map_of game ''instructions'' = None \<or>
            map_of game ''timeLimit'' = None \<or> map_of game ''answerBank'' = None"
        by auto
      from build_game_data_missing [OF this assms(2)] obtain k
        where b: "build_game_data pyfloat game game_mode_id level_id = Inl (KeyError k)"
        by blast
      show ?thesis
      proof (cases "no_id (map_of game ''id'')")
        case True
        from game_step_create [OF lvl gm True, of pyfloat new_id existing_games n] b
        have "game_step pyfloat new_id existing_games n game = (Suc n, Inl (KeyError k))"
          by simp
        from skip [OF this] show ?thesis .
      next
        case False
        then obtain game_id where gid: "map_of game ''id'' = Some game_id" "game_id \<noteq> []"
          by (auto simp: no_id_def)
        note ex = game_step_existing [OF lvl gm gid, of pyfloat new_id existing_games n]
        show ?thesis
        proof (cases "truthy (existing_games game_id)")
          case True
          with ex b
          have "game_step pyfloat new_id existing_games n game = (n, Inl (KeyError k))"
            by simp
          from skip [OF this] show ?thesis .
        next
          case False
          with ex
          have "game_step pyfloat new_id existing_games n game =
                  (n, Inr ([], [Not_found_skipping game_id], game))"
            by simp
          with gid False show ?thesis
            by (intro exI [of _ n] exI [of _ "Not_found_skipping game_id"] exI [of _ "[game]"])
               (simp split: sum.splits)
        qed
      qed
    qed
  qed
qed

lemma game_row_without_level_is_skipped:
  "map_of row_no_level ''levelId'' = None \<and>
   map_of row_no_level ''timeLimit'' = Some ''30'' \<and> sample_float ''30'' \<noteq> None \<and>
   games_loop sample_float sample_id (\<lambda>_. None) 0 [row_no_level] =
     Inr ([], [Missing_field ''levelId'' row_no_level], [row_no_level], [])"
  using game_row_missing_field_is_skipped
    [where game = row_no_level and pyfloat = sample_float and new_id = sample_id
       and existing_games = "\<lambda>_. None" and n = 0 and rest = "[]"]
  by (simp add: sample_eval row_no_level_def)

subsection \<open>C5\<close>

text \<open>
  C5.  As specified, a game row whose id is not in the snapshot is dropped from the
  rewritten games file.  The loop appends the row to the rows it writes back after the
  branch on the id, so the row is kept: here the file of a run over one such row.
\<close>

theorem unknown_id_row_in_file:
  "file_of (upload_games_from_csv sample_float sample_id 7 sample_db [ghost_row]
      sample_structure) =
   Some ([''id'', ''name'', ''instructions'', ''timeLimit'', ''gameModeId'', ''levelId'',
          ''answerBank''],
         [[''ghost'', ''Find B'', ''tap B'', '''', ''gm1'', ''lvl1'', '''']])"
  by (simp add: run_eval sample_eval ghost_row_def)

text \<open>
  C5, amended.  A game row with its level and game mode ids whose id is not in the
  snapshot is among the rows handed to the writer, unchanged, and its line of cells is
  in the file the writer produces.
\<close>

theorem unknown_id_row_is_written_back:
  assumes "games_loop pyfloat new_id existing_games n games_csv = Inr (ws, ps, csv, updated)"
    and "game \<in> set games_csv"
    and "map_of game ''id'' = Some game_id" and "game_id \<noteq> []"
    and "existing_games game_id = None"
    and "map_of game ''levelId'' \<noteq> None" and "map_of game ''gameModeId'' \<noteq> None"
  shows "game \<in> set updated \<and>
         (\<forall>fieldnames file. write_csv updated fieldnames = Inr file \<longrightarrow>
            map (\<lambda>k. case map_of game k of None \<Rightarrow> [] | Some v \<Rightarrow> v) fieldnames
              \<in> set (snd file))"
proof -
  have kept: "game \<in> set updated"
    using assms(1,2)
  proof (induction games_csv arbitrary: n ws ps csv updated)
    case Nil
    then show ?case by simp
  next
    case (Cons g rest)
    from games_loop_Cons_Inr [OF Cons.prems(1)] obtain n' ws' ps' csv' updated'
      where rest: "games_loop pyfloat new_id existing_games n' rest =
                     Inr (ws', ps', csv', updated')"
        and step: "(\<exists>k. game_step pyfloat new_id existing_games n g = (n', Inl (KeyError k)) \<and>
                     updated = updated') \<or>
                   (\<exists>w p game'. game_step pyfloat new_id existing_games n g =
                       (n', Inr (w, p, game')) \<and> updated = game' # updated')"
      by blast
    show ?case
    proof (cases "g = game")
      case True
      with step assms(3-7)
        game_step_unknown_id [of game game_id existing_games pyfloat new_id n]
      show ?thesis by auto
    next
      case False
      with Cons.prems(2) have "game \<in> set rest" by simp
      from Cons.IH [OF rest this] step show ?thesis by auto
    qed
  qed
  then show ?thesis
    by (auto simp: write_csv_def split: if_splits)
qed

theorem unknown_id_row_is_written_back_witness:
  "games_loop sample_float sample_id (fetch_existing_games sample_db) 0 [ghost_row] =
     Inr ([], [Not_found_skipping ''ghost''], [ghost_row], [ghost_row]) \<and>
   ghost_row \<in> set [ghost_row] \<and>
   map_of ghost_row ''id'' = Some ''ghost'' \<and> ''ghost'' \<noteq> [] \<and>
   fetch_existing_games sample_db ''ghost'' = None \<and>
   map_of ghost_row ''levelId'' \<noteq> None \<and> map_of ghost_row ''gameModeId'' \<noteq> None \<and>
   write_csv [ghost_row] [''id'', ''name''] =
     Inl (ValueError ''dict contains fields not in fieldnames'') \<and>
   write_csv [ghost_row] (map fst ghost_row) =
     Inr (map fst ghost_row, [[''ghost'', ''Find B'', ''tap B'', '''', ''gm1'', ''lvl1'', '''']])"
  using unknown_id_row_is_written_back
    [where pyfloat = sample_float and new_id = sample_id
       and existing_games = "fetch_existing_games sample_db" and n = 0
       and games_csv = "[ghost_row]" and ws = "[]" and ps = "[Not_found_skipping ''ghost'']"
       and csv = "[ghost_row]" and updated = "[ghost_row]" and game = ghost_row
       and game_id = "''ghost''"]
  by (simp add: sample_eval ghost_row_def write_csv_def)

subsection \<open>C6\<close>

text \<open>
  C6.  A game row whose id is present but absent from the snapshot of existing games
  adds no write to the batch: the batch of the loop over the row and the rows after it
  is the batch of the loop over the rows after it.  The row is reported, as not found
  when it has its level and game mode ids (and then it stays in the rows written
  back), as missing a field otherwise.
\<close>

theorem unknown_id_row_adds_no_write:
  assumes "map_of game ''id'' = Some game_id" and "game_id \<noteq> []"
    and "existing_games game_id = None"
  shows "games_loop pyfloat new_id existing_games n (game # rest) =
     (case games_loop pyfloat new_id existing_games n rest of
        Inl e \<Rightarrow> Inl e
      | Inr (ws, ps, csv, updated) \<Rightarrow>
          if map_of game ''levelId'' = None
          then Inr (ws, Missing_field ''levelId'' game # ps, game # csv, updated)
          else if map_of game ''gameModeId'' = None
          then Inr (ws, Missing_field ''gameModeId'' game # ps, game # csv, updated)
          else Inr (ws, Not_found_skipping game_id # ps, game # csv, game # updated))"
  using assms game_step_unknown_id [of game game_id existing_games pyfloat new_id n]
  by (simp split: sum.splits)

theorem unknown_id_row_adds_no_write_witness:
  "map_of ghost_row ''id'' = Some ''ghost'' \<and> ''ghost'' \<noteq> [] \<and>
   (\<lambda>_. None :: doc option) ''ghost'' = None \<and>
   games_loop sample_float sample_id (\<lambda>_. None) 0 [ghost_row] =
     Inr ([], [Not_found_skipping ''ghost''], [ghost_row], [ghost_row])"
  using unknown_id_row_adds_no_write
    [of ghost_row "''ghost''" "\<lambda>_. None" sample_float sample_id 0 "[]"]
  by (simp add: ghost_row_def)

subsection \<open>C7\<close>

text \<open>
  C7.  The row of game \<open>g1\<close> names level \<open>lvl2\<close> while the stored game belongs to
  \<open>lvl1\<close>.  After the run the game document declares \<open>lvl2\<close>, gameRefs of \<open>lvl1\<close> still
  holds its reference and gameRefs of \<open>lvl2\<close> does not.
\<close>

theorem moved_game_leaves_stale_reference:
  "stored_field (first_run sample_float [row_g1_moved]) (game_ref ''g1'') ''levelId'' = Some (PStr ''lvl2'') \<and>
   stored_field (first_run sample_float [row_g1_moved]) (level_ref ''gm1'' ''lvl1'') ''gameRefs'' =
     Some (PList [PRef (game_ref ''g1'')]) \<and>
   stored_field (first_run sample_float [row_g1_moved]) (level_ref ''gm1'' ''lvl2'') ''gameRefs'' =
     Some (PList [])"
  by (simp add: first_run_def run_eval sample_eval row_g1_moved_def)

subsection \<open>C8\<close>

text \<open>
  C8.  As specified, a structure row whose level exists overwrites the name, the
  description and the suggested time limit of the level.  For the superscript two as
  suggested time limit \<^verbatim>\<open>isdigit\<close> holds and \<^verbatim>\<open>int\<close> raises \<open>ValueError\<close>:
  the row of the stored level \<open>lvl1\<close> ends the run with the exception.  Nothing is
  committed, so no field of the level is overwritten.
\<close>

theorem superscript_time_limit_aborts_level_update:
  "sample_db (level_ref ''gm1'' ''lvl1'') = Some stored_lvl1 \<and>
   map_of structure_row_sup2 ''levelId'' = Some ''lvl1'' \<and>
   map_of structure_row_sup2 ''levelSuggestedTimeLimit'' = Some [CHR 0xB2] \<and>
   isdigit [CHR 0xB2] \<and>
   sug_time_limit [CHR 0xB2] = Inl (ValueError [CHR 0xB2]) \<and>
   upload_games_from_csv sample_float sample_id 7 sample_db [find_a] [structure_row_sup2] =
     Inl (ValueError [CHR 0xB2])"
  by (simp add: upload_games_from_csv_def reconcile_def structure_row_sup2_def
      structure_step_def ebind_def getitem_def sug_time_limit_def isdigit_def is_digit_def
      int_of_isdigit_def is_decimal_def sample_db_def stored_lvl1_def level_ref_def
      game_mode_ref_def game_ref_def stored_g1_def)

text \<open>
  A structure row that has its seven fields, with a suggested time limit the script can
  convert, and whose level exists adds, after the write for the game mode, one update of
  the level with its name, description and suggested time limit.  Applied to the level
  document it sets these three fields and leaves gameRefs and every other field as they
  were.
\<close>

lemma existing_level_update_keeps_gameRefs:
  assumes "map_of structure ''id'' = Some game_mode_id"
    and "map_of structure ''levelId'' = Some level_id"
    and "map_of structure ''name'' = Some name"
    and "map_of structure ''description'' = Some description"
    and "map_of structure ''levelName'' = Some level_name"
    and "map_of structure ''levelDescription'' = Some level_description"
    and "map_of structure ''levelSuggestedTimeLimit'' = Some sug"
    and "sug_time_limit sug = Inr sug_limit"
    and "db (level_ref game_mode_id level_id) = Some level"
  shows "\<exists>mode_write ps level'.
     structure_step db structure =
       Inr ([mode_write,
             Batch_update (level_ref game_mode_id level_id)
               [(''name'', PStr level_name), (''description'', PStr level_description),
                (''sugTimeLimit'', sug_limit)]], ps)
     \<and> target mode_write = game_mode_ref game_mode_id
     \<and> target mode_write \<noteq> level_ref game_mode_id level_id
     \<and> write_doc now (Some level)
         (Batch_update (level_ref game_mode_id level_id)
            [(''name'', PStr level_name), (''description'', PStr level_description),
             (''sugTimeLimit'', sug_limit)]) = Some level'
     \<and> map_of level' ''name'' = Some (PStr level_name)
     \<and> map_of level' ''description'' = Some (PStr level_description)
     \<and> map_of level' ''sugTimeLimit'' = Some sug_limit
     \<and> map_of level' ''gameRefs'' = map_of level ''gameRefs''
     \<and> (\<forall>k. k \<notin> {''name'', ''description'', ''sugTimeLimit''} \<longrightarrow>
            map_of level' k = map_of level k)"
proof -
  let ?lw = "Batch_update (level_ref game_mode_id level_id)
               [(''name'', PStr level_name), (''description'', PStr level_description),
                (''sugTimeLimit'', sug_limit)]"
  let ?data = "[(''name'', PStr name), (''description'', PStr description)]"
  let ?mw = "if db (game_mode_ref game_mode_id) \<noteq> None
             then Batch_update (game_mode_ref game_mode_id) ?data
             else Batch_set (game_mode_ref game_mode_id) ?data"
  let ?ps = "if db (game_mode_ref game_mode_id) \<noteq> None then []
             else [Creating_gameMode game_mode_id]"
  let ?level' = "setitem ''sugTimeLimit'' sug_limit
                   (setitem ''description'' (PStr level_description)
                      (setitem ''name'' (PStr level_name) level))"
  have step: "structure_step db structure = Inr ([?mw, ?lw], ?ps)"
    using assms structure_step_existing_level
      [of "structure" game_mode_id level_id name description level_name level_description
        sug sug_limit db level]
    by simp
  have tgt: "target ?mw = game_mode_ref game_mode_id"
    "target ?mw \<noteq> level_ref game_mode_id level_id"
    by (simp_all add: game_mode_ref_def level_ref_def)
  have wr: "write_doc now (Some level) ?lw = Some ?level'"
    using resolve_sug_time_limit [OF assms(8)] by (simp add: resolve_plain)
  have fields: "map_of ?level' ''name'' = Some (PStr level_name)"
    "map_of ?level' ''description'' = Some (PStr level_description)"
    "map_of ?level' ''sugTimeLimit'' = Some sug_limit"
    "map_of ?level' ''gameRefs'' = map_of level ''gameRefs''"
    "\<forall>k. k \<notin> {''name'', ''description'', ''sugTimeLimit''} \<longrightarrow>
        map_of ?level' k = map_of level k"
    by (simp_all add: map_of_setitem)
  from step tgt wr fields show ?thesis by blast
qed

lemma level_lvl1_update_keeps_gameRefs:
  "map_of structure_row_90 ''id'' = Some ''gm1'' \<and>
   map_of structure_row_90 ''levelId'' = Some ''lvl1'' \<and>
   map_of structure_row_90 ''name'' = Some ''Letters'' \<and>
   map_of structure_row_90 ''description'' = Some ''Letter games'' \<and>
   map_of structure_row_90 ''levelName'' = Some ''Level 1'' \<and>
   map_of structure_row_90 ''levelDescription'' = Some ''First'' \<and>
   map_of structure_row_90 ''levelSuggestedTimeLimit'' = Some ''90'' \<and>
   sug_time_limit ''90'' = Inr (PInt 90) \<and>
   sample_db (level_ref ''gm1'' ''lvl1'') = Some stored_lvl1 \<and>
   structure_step sample_db structure_row_90 =
     Inr ([Batch_update (game_mode_ref ''gm1'')
             [(''name'', PStr ''Letters''), (''description'', PStr ''Letter games'')],
           Batch_update (level_ref ''gm1'' ''lvl1'')
             [(''name'', PStr ''Level 1''), (''description'', PStr ''First''),
              (''sugTimeLimit'', PInt 90)]], []) \<and>
   write_doc 7 (Some stored_lvl1)
     (Batch_update (level_ref ''gm1'' ''lvl1'')
        [(''name'', PStr ''Level 1''), (''description'', PStr ''First''),
         (''sugTimeLimit'', PInt 90)]) =
     Some [(''name'', PStr ''Level 1''), (''description'', PStr ''First''),
           (''sugTimeLimit'', PInt 90), (''gameRefs'', PList [PRef (game_ref ''g1'')])]"
  using existing_level_update_keeps_gameRefs
    [of structure_row_90 "''gm1''" "''lvl1''" "''Letters''" "''Letter games''" "''Level 1''"
      "''First''" "''90''" "PInt 90" sample_db stored_lvl1 7]
  by (simp add: sample_eval structure_row_90_def stored_lvl1_def structure_step_def
      sug_time_limit_def isdigit_def is_digit_def int_of_isdigit_def is_decimal_def
      int_of_digits_def resolve_plain)

subsection \<open>C9\<close>

text \<open>
  C9.  The row \<open>Find A\<close> of the specification, with no id: the step adds a new game
  document with answerBank \<open>["A", "a"]\<close> and timeLimit \<open>30.0\<close> and both timestamps,
  adds the array union of the new reference into gameRefs of level \<open>lvl1\<close> under game
  mode \<open>gm1\<close>, and puts the new id into the row.  Applied to the level document, the
  union leaves the reference in gameRefs.
\<close>

theorem find_a_row_creates_game:
  assumes "pyfloat ''30'' = Some (Finite 30)"
  shows "game_step pyfloat new_id existing_games n
           [(''id'', ''''), (''name'', ''Find A''), (''instructions'', ''tap A''),
            (''timeLimit'', ''30''), (''gameModeId'', ''gm1''), (''levelId'', ''lvl1''),
            (''answerBank'', ''A,a'')] =
         (Suc n,
          Inr ([Batch_set (game_ref (new_id n))
                  [(''name'', PStr ''Find A''), (''description'', PNone),
                   (''instructions'', PStr ''tap A''),
                   (''timeLimit'', PFloat (Finite 30)),
                   (''gameModeId'', PStr ''gm1''), (''levelId'', PStr ''lvl1''),
                   (''letterPosition'', PNone), (''targetLetter'', PNone),
                   (''answerBank'', PList [PStr ''A'', PStr ''a'']),
                   (''createdAt'', SERVER_TIMESTAMP),
                   (''updatedAt'', SERVER_TIMESTAMP)],
                Batch_update (level_ref ''gm1'' ''lvl1'')
                  [(''gameRefs'', ArrayUnion [PRef (game_ref (new_id n))])]],
               [New_game (new_id n)],
               [(''id'', new_id n), (''name'', ''Find A''), (''instructions'', ''tap A''),
                (''timeLimit'', ''30''), (''gameModeId'', ''gm1''), (''levelId'', ''lvl1''),
                (''answerBank'', ''A,a'')]))
       \<and> (\<forall>now level. \<exists>level'.
            write_doc now (Some level)
              (Batch_update (level_ref ''gm1'' ''lvl1'')
                 [(''gameRefs'', ArrayUnion [PRef (game_ref (new_id n))])]) = Some level'
            \<and> PRef (game_ref (new_id n)) \<in> set (array_field level' ''gameRefs''))"
  using assms
  by (simp add: game_step_def build_game_data_def getitem_def ebind_def no_id_def
      time_limit_of_def answer_bank_of_def row_get_def strip_def is_space_def Let_def
      resolve_def array_field_def map_of_setitem)

theorem find_a_row_creates_game_witness:
  "sample_float ''30'' = Some (Finite 30) \<and>
   fst (game_step sample_float sample_id (\<lambda>_. None) 0 find_a) = 1 \<and>
   map_of (payload (hd (fst (projr (snd
     (game_step sample_float sample_id (\<lambda>_. None) 0 find_a)))))) ''timeLimit'' =
     Some (PFloat (Finite 30))"
proof -
  have h: "sample_float ''30'' = Some (Finite 30)"
    by (rule sample_float_30)
  show ?thesis
    using h find_a_row_creates_game [of sample_float sample_id "\<lambda>_. None" 0]
    by (simp add: find_a_def)
qed

subsection \<open>C10\<close>

text \<open>
  C10.  A row with an id that adds a write adds exactly one update of the game document,
  whose payload is the whole rebuilt document, the name of the row included, and the
  update timestamp.  A row whose rebuilt document agrees with the stored one on every
  key of the diff list adds no write, whatever the stored name is.
\<close>

theorem update_writes_whole_document_name_alone_ignored:
  assumes "map_of game ''id'' = Some game_id" and "game_id \<noteq> []"
  shows "(\<forall>n' ws ps game'.
            game_step pyfloat new_id existing_games n game = (n', Inr (ws, ps, game')) \<longrightarrow>
            ws \<noteq> [] \<longrightarrow>
            (\<exists>game_mode_id level_id game_data stored name.
               build_game_data pyfloat game game_mode_id level_id = Inr game_data \<and>
               existing_games game_id = Some stored \<and>
               has_game_changed stored game_data \<and>
               map_of game ''name'' = Some name \<and>
               ws = [Batch_update (game_ref game_id)
                       (game_data @ [(''updatedAt'', SERVER_TIMESTAMP)])] \<and>
               map_of (game_data @ [(''updatedAt'', SERVER_TIMESTAMP)]) ''name'' =
                 Some (PStr name) \<and>
               map fst (game_data @ [(''updatedAt'', SERVER_TIMESTAMP)]) =
                 [''name'', ''description'', ''instructions'', ''timeLimit'', ''gameModeId'',
                  ''levelId'', ''letterPosition'', ''targetLetter'', ''answerBank'',
                  ''updatedAt'']))
       \<and> (\<forall>level_id game_mode_id game_data stored.
            map_of game ''levelId'' = Some level_id \<longrightarrow>
            map_of game ''gameModeId'' = Some game_mode_id \<longrightarrow>
            build_game_data pyfloat game game_mode_id level_id = Inr game_data \<longrightarrow>
            existing_games game_id = Some stored \<longrightarrow>
            (\<forall>k \<in> set keys_to_check. py_eq (doc_get stored k) (doc_get game_data k)) \<longrightarrow>
            game_step pyfloat new_id existing_games n game =
              (n, Inr ([], [if stored = [] then Not_found_skipping game_id
                            else No_changes game_id], game)))"
proof (intro conjI allI impI)
  fix n' ws ps game'
  assume step: "game_step pyfloat new_id existing_games n game = (n', Inr (ws, ps, game'))"
    and ws: "ws \<noteq> []"
  from game_step_levelD [OF step] obtain level_id game_mode_id
    where lvl: "map_of game ''levelId'' = Some level_id"
      and gm: "map_of game ''gameModeId'' = Some game_mode_id" by blast
  note ex = game_step_existing [OF lvl gm assms, of pyfloat new_id existing_games n]
  from step ws ex have tr: "truthy (existing_games game_id)"
    by (auto split: if_splits)
  then obtain stored where stored: "existing_games game_id = Some stored"
    by (auto simp: truthy_def)
  from step ws ex tr obtain game_data
    where b: "build_game_data pyfloat game game_mode_id level_id = Inr game_data"
    by (cases "build_game_data pyfloat game game_mode_id level_id") auto
  from step ws ex tr b stored have ch: "has_game_changed stored game_data"
    and w: "ws = [Batch_update (game_ref game_id)
                    (dict_update game_data [(''updatedAt'', SERVER_TIMESTAMP)])]"
    by (auto split: if_splits)
  from build_game_data_name [OF b] obtain name
    where nm: "map_of game ''name'' = Some name" "map_of game_data ''name'' = Some (PStr name)"
    by blast
  show "\<exists>game_mode_id level_id game_data stored name.
               build_game_data pyfloat game game_mode_id level_id = Inr game_data \<and>
               existing_games game_id = Some stored \<and>
               has_game_changed stored game_data \<and>
               map_of game ''name'' = Some name \<and>
               ws = [Batch_update (game_ref game_id)
                       (game_data @ [(''updatedAt'', SERVER_TIMESTAMP)])] \<and>
               map_of (game_data @ [(''updatedAt'', SERVER_TIMESTAMP)]) ''name'' =
                 Some (PStr name) \<and>
               map fst (game_data @ [(''updatedAt'', SERVER_TIMESTAMP)]) =
                 [''name'', ''description'', ''instructions'', ''timeLimit'', ''gameModeId'',
                  ''levelId'', ''letterPosition'', ''targetLetter'', ''answerBank'',
                  ''updatedAt'']"
    using b stored ch nm w build_game_data_stamped(1) [OF b] build_game_data_keys [OF b]
    by (intro exI [of _ game_mode_id] exI [of _ level_id] exI [of _ game_data]
        exI [of _ stored] exI [of _ name]) simp
next
  fix level_id game_mode_id game_data stored
  assume lvl: "map_of game ''levelId'' = Some level_id"
    and gm: "map_of game ''gameModeId'' = Some game_mode_id"
    and b: "build_game_data pyfloat game game_mode_id level_id = Inr game_data"
    and stored: "existing_games game_id = Some stored"
    and same: "\<forall>k \<in> set keys_to_check. py_eq (doc_get stored k) (doc_get game_data k)"
  from same have "\<not> has_game_changed stored game_data"
    by (simp add: has_game_changed_iff py_ne_def)
  then show "game_step pyfloat new_id existing_games n game =
      (n, Inr ([], [if stored = [] then Not_found_skipping game_id
                    else No_changes game_id], game))"
    using game_step_existing [OF lvl gm assms, of pyfloat new_id existing_games n] b stored
    by (simp add: truthy_def)
qed

theorem update_writes_whole_document_name_alone_ignored_witness:
  "map_of row_g1 ''id'' = Some ''g1'' \<and> ''g1'' \<noteq> [] \<and>
   game_step sample_float sample_id (fetch_existing_games sample_db) 0 row_g1_edited =
     (0, Inr ([Batch_update (game_ref ''g1'')
                 [(''name'', PStr ''Find A''), (''description'', PNone),
                  (''instructions'', PStr ''tap the A''), (''timeLimit'', PFloat (Finite 30)),
                  (''gameModeId'', PStr ''gm1''), (''levelId'', PStr ''lvl1''),
                  (''letterPosition'', PNone), (''targetLetter'', PNone),
                  (''answerBank'', PList [PStr ''A'', PStr ''a'']),
                  (''updatedAt'', SERVER_TIMESTAMP)]],
              [Game_updated ''g1''], row_g1_edited)) \<and>
   py_ne (doc_get stored_g1 ''name'') (PStr ''Find A'') \<and>
   game_step sample_float sample_id (fetch_existing_games sample_db) 0 row_g1 =
     (0, Inr ([], [No_changes ''g1''], row_g1))"
  using update_writes_whole_document_name_alone_ignored
    [where game = row_g1 and game_id = "''g1''" and pyfloat = sample_float
       and new_id = sample_id and existing_games = "fetch_existing_games sample_db" and n = 0]
  by (simp add: sample_eval row_g1_def row_g1_edited_def)

end
